theory Spec2Isabelle
  imports Main
begin

section \<open>Package data model (libpkg/data/package.h, as far as the cache and the actions use it)\<close>

datatype PackageOrigin = Unknown | PackageFileName | DatabaseFileList | PackageContents

datatype DependencyMode = AnyVersion | Equal | GreatherEqual | LessEqual | GreatherThan | LessThan

record Dependency =
  depName :: string
  depVersion :: string
  depMode :: DependencyMode

record PackageInfo =
  fileName :: string
  arch :: string
  buildDate :: nat

record Package =
  origin :: PackageOrigin
  timestamp :: nat
  name :: string
  version :: string
  dependencies :: "Dependency list"
  provides :: "Dependency list"
  libprovides :: "string list"
  libdepends :: "string list"
  packageInfo :: "PackageInfo option"

text \<open>
  Modelled from the spec: \<^verbatim>\<open>Package::addDepsAndProvidesFromOtherPackage\<close> is defined in
  libpkg/data/package.cpp, which is not among the sources. The specification says that it
  copies the library-level fields from the other package into this one iff name, version and
  packageInfo.buildDate match, and returns whether the merge was applied.
\<close>

definition sameIdentity :: "Package \<Rightarrow> Package \<Rightarrow> bool" where
  "sameIdentity self other =
     (name self = name other \<and> version self = version other
      \<and> map_option buildDate (packageInfo self) = map_option buildDate (packageInfo other))"

definition addDepsAndProvidesFromOtherPackage :: "Package \<Rightarrow> Package \<Rightarrow> bool \<times> Package" where
  "addDepsAndProvidesFromOtherPackage self other =
     (if sameIdentity self other
      then (True, self\<lparr>libprovides := libprovides other, libdepends := libdepends other\<rparr>)
      else (False, self))"

section \<open>Storage cache (libpkg/data/storage.cpp)\<close>

text \<open>
  A \<^verbatim>\<open>std::shared_ptr<Package>\<close> is an address into an explicit heap, a
  \<^verbatim>\<open>Storage &\<close> is the identity of a database storage, and a \<^verbatim>\<open>StorageID\<close> is a
  number where 0 means "no entry". The member \<^verbatim>\<open>entryName\<close> of a cache reference is a
  pointer to a string in the source, and two references are equal when the storages are the
  same and the strings pointed to are equal; the model holds the string itself.
\<close>

type_synonym addr = nat
type_synonym storage_ref = nat
type_synonym StorageID = nat

record StorageCacheRef =
  relatedStorage :: storage_ref
  entryName :: string

record StorageCacheEntry =
  ref :: StorageCacheRef
  id_of :: StorageID
  entry :: addr

text \<open>
  \<^verbatim>\<open>StorageCacheEntries\<close>: the multi-index container \<^verbatim>\<open>m_entries\<close> as the list of its
  sequenced index (front = most recently used) and the capacity \<^verbatim>\<open>m_limit\<close>.
\<close>

record StorageCacheEntries =
  m_entries :: "StorageCacheEntry list"
  m_limit :: nat

definition byRef :: "StorageCacheRef \<Rightarrow> StorageCacheEntry \<Rightarrow> bool" where
  "byRef r x = (ref x = r)"

definition byID :: "StorageID \<Rightarrow> storage_ref \<Rightarrow> StorageCacheEntry \<Rightarrow> bool" where
  "byID i s x = (id_of x = i \<and> relatedStorage (ref x) = s)"

definition relocate_front :: "'a \<Rightarrow> 'a list \<Rightarrow> 'a list" where
  "relocate_front x xs = x # remove1 x xs"

text \<open>\<^verbatim>\<open>StorageCacheEntries::find\<close>: a hit is relocated to the front and returned.\<close>

definition find_cache ::
  "(StorageCacheEntry \<Rightarrow> bool) \<Rightarrow> StorageCacheEntries \<Rightarrow> StorageCacheEntry option \<times> StorageCacheEntries" where
  "find_cache p c =
     (case List.find p (m_entries c) of
        None \<Rightarrow> (None, c)
      | Some x \<Rightarrow> (Some x, c\<lparr>m_entries := relocate_front x (m_entries c)\<rparr>))"

text \<open>
  Modelled from the spec: the declaration of the container (storageprivate.h) is not among the
  sources; the specification gives its indices as ID and (storage, name). Both are unique, and
  \<^verbatim>\<open>emplace_front\<close> fails when one of them already holds the key of the new element; it then
  yields the element that prevented the insertion, the one of the ID index first.
\<close>

definition clash :: "StorageCacheEntry \<Rightarrow> StorageCacheEntry list \<Rightarrow> StorageCacheEntry option" where
  "clash e xs =
     (case List.find (byID (id_of e) (relatedStorage (ref e))) xs of
        Some x \<Rightarrow> Some x
      | None \<Rightarrow> List.find (byRef (ref e)) xs)"

text \<open>\<^verbatim>\<open>StorageCacheEntries::insert\<close>. The element the source returns a reference to is the
  front of the resulting list (unless the capacity is 0, where the source returns a dangling
  reference).\<close>

definition insert_cache :: "StorageCacheEntry \<Rightarrow> StorageCacheEntries \<Rightarrow> StorageCacheEntries" where
  "insert_cache e c =
     (case clash e (m_entries c) of
        Some i \<Rightarrow> c\<lparr>m_entries := relocate_front i (m_entries c)\<rparr>
      | None \<Rightarrow>
          (if length (e # m_entries c) > m_limit c
           then c\<lparr>m_entries := butlast (e # m_entries c)\<rparr>
           else c\<lparr>m_entries := e # m_entries c\<rparr>))"

text \<open>\<^verbatim>\<open>StorageCacheEntries::erase(ref)\<close>: removes the elements with that key.\<close>

definition erase_cache :: "StorageCacheRef \<Rightarrow> StorageCacheEntries \<Rightarrow> StorageCacheEntries" where
  "erase_cache r c = c\<lparr>m_entries := filter (\<lambda>x. \<not> byRef r x) (m_entries c)\<rparr>"

text \<open>A write through the pointer that \<^verbatim>\<open>find\<close> or \<^verbatim>\<open>insert\<close> returned: the element
  is the front one.\<close>

definition update_front :: "('a \<Rightarrow> 'a) \<Rightarrow> 'a list \<Rightarrow> 'a list" where
  "update_front f xs = (case xs of [] \<Rightarrow> [] | x # rest \<Rightarrow> f x # rest)"

text \<open>
  Modelled from the spec: the backing table \<^verbatim>\<open>storage.packages\<close> is a typed table of the
  external key-value library; the specification describes it as holding one Package per key.
  A table is the list of its rows (id, package). \<^verbatim>\<open>put\<close> with id 0 allocates the id after
  the largest one; a lookup that yields id 0 counts as "not found" in the callers' conditions.
\<close>

type_synonym PackageStorage = "(StorageID \<times> Package) list"

definition getMaxID :: "PackageStorage \<Rightarrow> StorageID" where
  "getMaxID rows = fold max (map fst rows) 0"

definition txn_find0 :: "string \<Rightarrow> PackageStorage \<Rightarrow> (StorageID \<times> Package) option" where
  "txn_find0 n rows = List.find (\<lambda>row. name (snd row) = n) rows"

definition txn_get0 :: "string \<Rightarrow> PackageStorage \<Rightarrow> (StorageID \<times> Package) option" where
  "txn_get0 n rows =
     (case txn_find0 n rows of
        None \<Rightarrow> None
      | Some row \<Rightarrow> (if fst row = 0 then None else Some row))"

definition txn_put :: "Package \<Rightarrow> StorageID \<Rightarrow> PackageStorage \<Rightarrow> StorageID \<times> PackageStorage" where
  "txn_put p i rows =
     (let j = (if i = 0 then getMaxID rows + 1 else i)
      in (j, (j, p) # filter (\<lambda>row. fst row \<noteq> j \<and> name (snd row) \<noteq> name p) rows))"

definition txn_del :: "StorageID \<Rightarrow> PackageStorage \<Rightarrow> PackageStorage" where
  "txn_del i rows = filter (\<lambda>row. fst row \<noteq> i) rows"

record World =
  heap :: "addr \<Rightarrow> Package"
  nextAddr :: addr
  cache :: StorageCacheEntries
  storages :: "storage_ref \<Rightarrow> PackageStorage"

record StoreResult =
  res_id :: StorageID
  oldEntry :: "addr option"
  updated :: bool

text \<open>\<^verbatim>\<open>StorageCache::retrieve(Storage &, const std::string &)\<close>\<close>

definition retrieve :: "World \<Rightarrow> storage_ref \<Rightarrow> string \<Rightarrow> (StorageID \<times> addr option) \<times> World" where
  "retrieve w s entryName' =
     (let r = \<lparr>relatedStorage = s, entryName = entryName'\<rparr>;
          fc = find_cache (byRef r) (cache w)
      in case fst fc of
           Some existingCacheEntry \<Rightarrow>
             ((id_of existingCacheEntry, Some (entry existingCacheEntry)), w\<lparr>cache := snd fc\<rparr>)
         | None \<Rightarrow>
             (case txn_get0 entryName' (storages w s) of
                Some row \<Rightarrow>
                  (let a = nextAddr w;
                       newCacheEntry = \<lparr>ref = r, id_of = fst row, entry = a\<rparr>
                   in ((fst row, Some a),
                       w\<lparr>heap := (heap w)(a := snd row), nextAddr := Suc a,
                         cache := insert_cache newCacheEntry (snd fc)\<rparr>))
              | None \<Rightarrow> ((0, None), w\<lparr>cache := snd fc\<rparr>)))"

text \<open>\<^verbatim>\<open>StorageCache::store(Storage &, const std::shared_ptr<Entry> &, bool force)\<close>.
  The comparison \<^verbatim>\<open>cacheEntry->entry == entry\<close> compares the two shared pointers.\<close>

definition store :: "World \<Rightarrow> storage_ref \<Rightarrow> addr \<Rightarrow> bool \<Rightarrow> StoreResult \<times> World" where
  "store w s e force =
     (let r = \<lparr>relatedStorage = s, entryName = name (heap w e)\<rparr>;
          fc = find_cache (byRef r) (cache w)
      in case fst fc of
           Some cacheEntry \<Rightarrow>
             (if entry cacheEntry = e \<and> \<not> force
              then (\<lparr>res_id = id_of cacheEntry, oldEntry = Some (entry cacheEntry), updated = False\<rparr>,
                    w\<lparr>cache := snd fc\<rparr>)
              else
                (let h = (heap w)(e := snd (addDepsAndProvidesFromOtherPackage (heap w e) (heap w (entry cacheEntry))));
                     pt = txn_put (h e) (id_of cacheEntry) (storages w s);
                     c = (snd fc)\<lparr>m_entries := update_front
                            (\<lambda>x. x\<lparr>ref := \<lparr>relatedStorage = s, entryName = name (h e)\<rparr>, entry := e\<rparr>)
                            (m_entries (snd fc))\<rparr>
                 in (\<lparr>res_id = fst pt, oldEntry = Some (entry cacheEntry), updated = True\<rparr>,
                     w\<lparr>heap := h, cache := c, storages := (storages w)(s := snd pt)\<rparr>)))
         | None \<Rightarrow>
             (case txn_get0 (name (heap w e)) (storages w s) of
                Some row \<Rightarrow>
                  (let a = nextAddr w;
                       h0 = (heap w)(a := snd row);
                       h = h0(e := snd (addDepsAndProvidesFromOtherPackage (h0 e) (h0 a)));
                       pt = txn_put (h e) 0 (storages w s);
                       c0 = insert_cache \<lparr>ref = r, id_of = fst pt, entry = e\<rparr> (snd fc);
                       c = c0\<lparr>m_entries := update_front (\<lambda>x. x\<lparr>entry := e\<rparr>) (m_entries c0)\<rparr>
                   in (\<lparr>res_id = fst pt, oldEntry = Some a, updated = True\<rparr>,
                       w\<lparr>heap := h, nextAddr := Suc a, cache := c, storages := (storages w)(s := snd pt)\<rparr>))
              | None \<Rightarrow>
                  (let pt = txn_put (heap w e) 0 (storages w s);
                       c0 = insert_cache \<lparr>ref = r, id_of = fst pt, entry = e\<rparr> (snd fc);
                       c = c0\<lparr>m_entries := update_front (\<lambda>x. x\<lparr>entry := e\<rparr>) (m_entries c0)\<rparr>
                   in (\<lparr>res_id = fst pt, oldEntry = None, updated = True\<rparr>,
                       w\<lparr>cache := c, storages := (storages w)(s := snd pt)\<rparr>))))"

text \<open>\<^verbatim>\<open>StorageCache::invalidate(Storage &, const std::string &)\<close>\<close>

definition invalidate :: "World \<Rightarrow> storage_ref \<Rightarrow> string \<Rightarrow> bool \<times> World" where
  "invalidate w s entryName' =
     (let c = erase_cache \<lparr>relatedStorage = s, entryName = entryName'\<rparr> (cache w)
      in case txn_find0 entryName' (storages w s) of
           Some row \<Rightarrow> (True, w\<lparr>cache := c, storages := (storages w)(s := txn_del (fst row) (storages w s))\<rparr>)
         | None \<Rightarrow> (False, w\<lparr>cache := c\<rparr>))"

text \<open>The operations on a cache, for statements about arbitrary sequences of them.\<close>

datatype cache_op =
    OpRetrieve storage_ref string
  | OpStore storage_ref addr bool
  | OpInvalidate storage_ref string
  | OpInsert StorageCacheEntry

fun apply_op :: "World \<Rightarrow> cache_op \<Rightarrow> World" where
  "apply_op w (OpRetrieve s n) = snd (retrieve w s n)"
| "apply_op w (OpStore s e force) = snd (store w s e force)"
| "apply_op w (OpInvalidate s n) = snd (invalidate w s n)"
| "apply_op w (OpInsert x) = w\<lparr>cache := insert_cache x (cache w)\<rparr>"

definition run_ops :: "World \<Rightarrow> cache_op list \<Rightarrow> World" where
  "run_ops w ops = foldl apply_op w ops"

definition within_limit :: "StorageCacheEntries \<Rightarrow> bool" where
  "within_limit c = (length (m_entries c) \<le> m_limit c)"

text \<open>Sample data for concrete evaluations.\<close>

definition pkg :: "string \<Rightarrow> string \<Rightarrow> string list \<Rightarrow> Package" where
  "pkg n v libs =
     \<lparr>origin = Unknown, timestamp = 0, name = n, version = v, dependencies = [], provides = [],
      libprovides = libs, libdepends = [], packageInfo = None\<rparr>"

definition cacheEntry0 :: "storage_ref \<Rightarrow> string \<Rightarrow> StorageID \<Rightarrow> addr \<Rightarrow> StorageCacheEntry" where
  "cacheEntry0 s n i a = \<lparr>ref = \<lparr>relatedStorage = s, entryName = n\<rparr>, id_of = i, entry = a\<rparr>"

definition world0 :: World where
  "world0 =
     \<lparr>heap = (\<lambda>a. if a = 0 then pkg ''foo'' ''1'' [] else if a = 1 then pkg ''bar'' ''1'' []
                 else pkg ''baz'' ''1'' []),
      nextAddr = 3,
      cache = \<lparr>m_entries = [cacheEntry0 0 ''foo'' 1 0, cacheEntry0 0 ''bar'' 2 1], m_limit = 2\<rparr>,
      storages = (\<lambda>s. [(2, pkg ''bar'' ''1'' []), (1, pkg ''foo'' ''1'' [])])\<rparr>"

definition ops0 :: "cache_op list" where
  "ops0 = [OpStore 0 2 False, OpRetrieve 0 ''foo'', OpInsert (cacheEntry0 1 ''qux'' 7 2)]"

text \<open>Notions used to state the cache properties.\<close>

definition keyOf :: "World \<Rightarrow> storage_ref \<Rightarrow> addr \<Rightarrow> StorageCacheRef" where
  "keyOf w s e = \<lparr>relatedStorage = s, entryName = name (heap w e)\<rparr>"

definition cache_ids_ok :: "World \<Rightarrow> bool" where
  "cache_ids_ok w =
     list_all (\<lambda>c. id_of c \<noteq> 0 \<and> id_of c \<le> getMaxID (storages w (relatedStorage (ref c))))
       (m_entries (cache w))"

definition unique_names :: "PackageStorage \<Rightarrow> bool" where
  "unique_names rows = distinct (map (\<lambda>row. name (snd row)) rows)"

definition previousEntry :: "World \<Rightarrow> storage_ref \<Rightarrow> addr \<Rightarrow> Package option" where
  "previousEntry w s e =
     (case List.find (byRef (keyOf w s e)) (m_entries (cache w)) of
        Some ce \<Rightarrow> Some (heap w (entry ce))
      | None \<Rightarrow> map_option snd (txn_get0 (name (heap w e)) (storages w s)))"

definition mergedEntry :: "World \<Rightarrow> storage_ref \<Rightarrow> addr \<Rightarrow> Package" where
  "mergedEntry w s e =
     (case previousEntry w s e of
        None \<Rightarrow> heap w e
      | Some old \<Rightarrow> snd (addDepsAndProvidesFromOtherPackage (heap w e) old))"

definition world1 :: World where
  "world1 = world0\<lparr>heap := (heap world0)(2 := pkg ''foo'' ''1'' [])\<rparr>"

section \<open>Strings, paths and the file system\<close>

text \<open>Decimal rendering of numbers, as \<^verbatim>\<open>argsToString\<close> does for integers.\<close>

definition digitChar :: "nat \<Rightarrow> char" where
  "digitChar d = char_of (48 + d)"

fun showNatFuel :: "nat \<Rightarrow> nat \<Rightarrow> string" where
  "showNatFuel 0 n = [digitChar (n mod 10)]"
| "showNatFuel (Suc fuel) n =
     (if n < 10 then [digitChar n] else showNatFuel fuel (n div 10) @ [digitChar (n mod 10)])"

definition showNat :: "nat \<Rightarrow> string" where
  "showNat n = showNatFuel n n"

definition showInt :: "int \<Rightarrow> string" where
  "showInt i = (if i < 0 then CHR ''-'' # showNat (nat (- i)) else showNat (nat i))"

text \<open>\<^verbatim>\<open>std::filesystem::path\<close>: \<^verbatim>\<open>filename()\<close>, \<^verbatim>\<open>parent_path()\<close> and \<^verbatim>\<open>operator/\<close> on
  canonical paths written with single slashes.\<close>

definition filename :: "string \<Rightarrow> string" where
  "filename p = rev (takeWhile (\<lambda>c. c \<noteq> CHR ''/'') (rev p))"

definition parent_path :: "string \<Rightarrow> string" where
  "parent_path p = rev (drop 1 (dropWhile (\<lambda>c. c \<noteq> CHR ''/'') (rev p)))"

definition path_append :: "string \<Rightarrow> string \<Rightarrow> string" where
  "path_append p q = p @ ''/'' @ q"

text \<open>
  The file system the actions mutate through \<^verbatim>\<open>std::filesystem\<close>: the node at each path, and
  the paths on which a mutation fails (missing permission and the like). A failing operation
  throws \<^verbatim>\<open>std::filesystem::filesystem_error\<close>, which is the value \<open>Inl\<close> here.
\<close>

datatype node = RegularFile | Directory

record filesystem =
  nodes :: "string \<Rightarrow> node option"
  readOnly :: "string \<Rightarrow> bool"

datatype filesystem_error = FilesystemError string

fun what :: "filesystem_error \<Rightarrow> string" where
  "what (FilesystemError m) = m"

definition is_directory :: "filesystem \<Rightarrow> string \<Rightarrow> bool" where
  "is_directory fs p = (nodes fs p = Some Directory)"

definition create_directory :: "filesystem \<Rightarrow> string \<Rightarrow> filesystem_error + filesystem" where
  "create_directory fs p =
     (case nodes fs p of
        Some Directory \<Rightarrow> Inr fs
      | Some RegularFile \<Rightarrow> Inl (FilesystemError (''cannot create directory: '' @ p))
      | None \<Rightarrow>
          (if readOnly fs p then Inl (FilesystemError (''cannot create directory: '' @ p))
           else Inr (fs\<lparr>nodes := (nodes fs)(p := Some Directory)\<rparr>)))"

definition rename :: "filesystem \<Rightarrow> string \<Rightarrow> string \<Rightarrow> filesystem_error + filesystem" where
  "rename fs old new =
     (if nodes fs old = None \<or> readOnly fs old \<or> readOnly fs new
      then Inl (FilesystemError (''cannot rename: '' @ old))
      else Inr (fs\<lparr>nodes := (nodes fs)(old := None, new := nodes fs old)\<rparr>))"

definition remove_file :: "filesystem \<Rightarrow> string \<Rightarrow> filesystem_error + filesystem" where
  "remove_file fs p =
     (if nodes fs p = None then Inr fs
      else if readOnly fs p then Inl (FilesystemError (''cannot remove: '' @ p))
      else Inr (fs\<lparr>nodes := (nodes fs)(p := None)\<rparr>))"

section \<open>Build actions: results and messages (librepomgr/buildactions)\<close>

datatype BuildActionResult = NoResult | Success | Failure | ConfirmationDeclined | Aborted

record BuildActionMessages =
  errors :: "string list"
  warnings :: "string list"
  "notes" :: "string list"

record ProcessResult =
  errorCode :: int
  errorCodeMessage :: string
  error :: string
  exitCode :: int

record PackageLocation =
  pathWithinRepo :: string
  storageLocation :: string

record PackageMovementResult =
  failedPackages :: "(string \<times> string) list"
  processedPackages :: "string list"
  errorMessage :: string

text \<open>The state of a \<^verbatim>\<open>PackageMovementAction\<close>: the located packages
  (name, location, ok), the result and, for \<^verbatim>\<open>MovePackages\<close>, the repo-add error.\<close>

record PackageMovementAction =
  fs :: filesystem
  m_packageLocations :: "(string \<times> PackageLocation \<times> bool) list"
  m_result :: PackageMovementResult
  m_addErrorMessage :: string

subsection \<open>RemovePackages\<close>

text \<open>The body of the \<^verbatim>\<open>try\<close> block of \<^verbatim>\<open>RemovePackages::movePackagesToArchive\<close> for one
  package: the file system afterwards, and either the error that was thrown or whether the
  iterator is advanced.\<close>

definition archivePackage :: "filesystem \<Rightarrow> PackageLocation \<Rightarrow> filesystem \<times> (filesystem_error + bool)" where
  "archivePackage f loc =
     (let archivePath = path_append (parent_path (pathWithinRepo loc)) ''archive''
      in case create_directory f archivePath of
           Inl e \<Rightarrow> (f, Inl e)
         | Inr f1 \<Rightarrow>
            (case rename f1 (pathWithinRepo loc) (path_append archivePath (filename (pathWithinRepo loc))) of
               Inl e \<Rightarrow> (f1, Inl e)
             | Inr f2 \<Rightarrow>
                (if storageLocation loc = [] then (f2, Inr False)
                 else
                   (let archivePath2 = path_append (parent_path (storageLocation loc)) ''archive''
                    in case create_directory f2 archivePath2 of
                         Inl e \<Rightarrow> (f2, Inl e)
                       | Inr f3 \<Rightarrow>
                          (case rename f3 (storageLocation loc)
                                  (path_append archivePath2 (filename (storageLocation loc))) of
                             Inl e \<Rightarrow> (f3, Inl e)
                           | Inr f4 \<Rightarrow> (f4, Inr True))))))"

text \<open>\<^verbatim>\<open>vector::erase(iterator)\<close> at an index (the source never calls it at the end).\<close>

definition erase_at :: "nat \<Rightarrow> 'a list \<Rightarrow> 'a list" where
  "erase_at i xs = take i xs @ drop (Suc i) xs"

text \<open>The loop of \<^verbatim>\<open>movePackagesToArchive\<close>; \<open>it\<close> is \<^verbatim>\<open>processedPackageIterator\<close>.\<close>

fun archiveLoop ::
  "(string \<times> PackageLocation \<times> bool) list \<Rightarrow> nat \<Rightarrow> filesystem \<Rightarrow> PackageMovementResult
     \<Rightarrow> filesystem \<times> PackageMovementResult" where
  "archiveLoop [] it f res = (f, res)"
| "archiveLoop ((packageName, packageLocation, ok) # rest) it f res =
     (case archivePackage f packageLocation of
        (f', Inr advance) \<Rightarrow> archiveLoop rest (if advance then Suc it else it) f' res
      | (f', Inl e) \<Rightarrow>
          archiveLoop rest it f'
            (res\<lparr>processedPackages := erase_at it (processedPackages res),
                 failedPackages := failedPackages res @ [(packageName, ''unable to archive: '' @ what e)]\<rparr>))"

definition movePackagesToArchive :: "PackageMovementAction \<Rightarrow> PackageMovementAction \<times> BuildActionResult" where
  "movePackagesToArchive a =
     (let fr = archiveLoop (m_packageLocations a) 0 (fs a) (m_result a);
          res = snd fr
      in if failedPackages res = [] then (a\<lparr>fs := fst fr, m_result := res\<rparr>, Success)
         else (a\<lparr>fs := fst fr,
                 m_result := res\<lparr>errorMessage :=
                   ''failed to remove '' @ showNat (length (failedPackages res)) @ '' packages''\<rparr>\<rparr>,
               Failure))"

text \<open>The part of \<^verbatim>\<open>RemovePackages::run\<close> that fills \<^verbatim>\<open>processedPackages\<close>.\<close>

definition listProcessedPackages :: "PackageMovementAction \<Rightarrow> PackageMovementAction" where
  "listProcessedPackages a =
     a\<lparr>m_result := (m_result a)\<lparr>processedPackages := map fst (m_packageLocations a)\<rparr>\<rparr>"

subsection \<open>MovePackages\<close>

definition processFailed :: "ProcessResult \<Rightarrow> bool" where
  "processFailed r = (errorCode r \<noteq> 0 \<or> exitCode r \<noteq> 0)"

text \<open>The loop of \<^verbatim>\<open>MovePackages::handleRepoRemoveResult\<close> that deletes the source files.\<close>

fun removeFromSourceRepo ::
  "(string \<times> PackageLocation \<times> bool) list \<Rightarrow> filesystem \<Rightarrow> PackageMovementResult
     \<Rightarrow> (string \<times> PackageLocation \<times> bool) list \<times> filesystem \<times> PackageMovementResult" where
  "removeFromSourceRepo [] f res = ([], f, res)"
| "removeFromSourceRepo ((packageName, packageLocation, ok) # rest) f res =
     (if \<not> ok
      then (case removeFromSourceRepo rest f res of
              (locs, f', res') \<Rightarrow> ((packageName, packageLocation, ok) # locs, f', res'))
      else (case remove_file f (pathWithinRepo packageLocation) of
              Inr f1 \<Rightarrow>
                (case removeFromSourceRepo rest f1 res of
                   (locs, f', res') \<Rightarrow> ((packageName, packageLocation, ok) # locs, f', res'))
            | Inl e \<Rightarrow>
                (case removeFromSourceRepo rest f
                        (res\<lparr>failedPackages := failedPackages res
                                @ [(packageName, ''unable to remove from source repo: '' @ what e)],
                             processedPackages := removeAll packageName (processedPackages res)\<rparr>) of
                   (locs, f', res') \<Rightarrow> ((packageName, packageLocation, False) # locs, f', res'))))"

definition handleRepoRemoveResult :: "ProcessResult \<Rightarrow> PackageMovementAction \<Rightarrow> PackageMovementAction" where
  "handleRepoRemoveResult r a =
     (if errorCode r \<noteq> 0
      then a\<lparr>m_result := (m_result a)\<lparr>errorMessage :=
               ''unable to remove packages: '' @ (if error r = [] then errorCodeMessage r else error r)\<rparr>\<rparr>
      else if exitCode r \<noteq> 0
      then a\<lparr>m_result := (m_result a)\<lparr>errorMessage :=
               ''unable to remove package: repo-remove returned with exit code '' @ showInt (exitCode r)\<rparr>\<rparr>
      else (case removeFromSourceRepo (m_packageLocations a) (fs a) (m_result a) of
              (locs, f', res') \<Rightarrow> a\<lparr>fs := f', m_packageLocations := locs, m_result := res'\<rparr>))"

definition handleRepoAddResult :: "ProcessResult \<Rightarrow> PackageMovementAction \<Rightarrow> PackageMovementAction" where
  "handleRepoAddResult r a =
     (if errorCode r \<noteq> 0
      then a\<lparr>m_addErrorMessage :=
               ''unable to add packages: '' @ (if error r = [] then errorCodeMessage r else error r)\<rparr>
      else if exitCode r \<noteq> 0
      then a\<lparr>m_addErrorMessage :=
               ''unable to add packages: repo-add returned with exit code '' @ showInt (exitCode r)\<rparr>
      else a)"

text \<open>\<^verbatim>\<open>MovePackages::conclude\<close>\<close>

definition conclude_move :: "PackageMovementAction \<Rightarrow> PackageMovementAction \<times> BuildActionResult" where
  "conclude_move a =
     (let hasRepoRemoveError = (errorMessage (m_result a) \<noteq> []);
          hasRepoAddError = (m_addErrorMessage a \<noteq> []);
          failureReason =
            (if hasRepoAddError \<and> hasRepoRemoveError then ''repo-add and repo-remove error''
             else if hasRepoAddError then ''repo-add error''
             else if hasRepoRemoveError then ''repo-remove error'' else []);
          a1 =
            (if hasRepoAddError \<and> hasRepoRemoveError
             then a\<lparr>m_result := (m_result a)\<lparr>errorMessage :=
                      errorMessage (m_result a) @ '', '' @ m_addErrorMessage a\<rparr>\<rparr>
             else if hasRepoAddError
             then a\<lparr>m_result := (m_result a)\<lparr>errorMessage := m_addErrorMessage a\<rparr>, m_addErrorMessage := []\<rparr>
             else a)
      in if \<not> hasRepoAddError \<and> \<not> hasRepoRemoveError
         then (if errorMessage (m_result a1) = [] \<and> failedPackages (m_result a1) \<noteq> []
               then (a1\<lparr>m_result := (m_result a1)\<lparr>errorMessage :=
                          ''failed to move '' @ showNat (length (failedPackages (m_result a1))) @ '' packages''\<rparr>\<rparr>,
                     Failure)
               else (a1, if failedPackages (m_result a1) = [] then Success else Failure))
         else (a1\<lparr>m_result := (m_result a1)\<lparr>
                     failedPackages := failedPackages (m_result a1)
                        @ map (\<lambda>processedPackage. (processedPackage, failureReason)) (processedPackages (m_result a1)),
                     processedPackages := []\<rparr>\<rparr>,
               Failure))"

text \<open>The two child processes finish in either order; \<^verbatim>\<open>conclude\<close> runs after both
  handlers.\<close>

definition finishMove ::
  "bool \<Rightarrow> ProcessResult \<Rightarrow> ProcessResult \<Rightarrow> PackageMovementAction \<Rightarrow> PackageMovementAction \<times> BuildActionResult" where
  "finishMove addFirst addResult removeResult a =
     (if addFirst
      then conclude_move (handleRepoRemoveResult removeResult (handleRepoAddResult addResult a))
      else conclude_move (handleRepoAddResult addResult (handleRepoRemoveResult removeResult a)))"

text \<open>Sample data: a repository directory with two package files, the second of which cannot
  be moved or deleted.\<close>

definition fs0 :: filesystem where
  "fs0 =
     \<lparr>nodes = (\<lambda>p. if p = ''/repo/a.pkg'' \<or> p = ''/repo/b.pkg'' then Some RegularFile
                    else if p = ''/repo'' then Some Directory else None),
      readOnly = (\<lambda>p. p = ''/repo/b.pkg'')\<rparr>"

definition action0 :: PackageMovementAction where
  "action0 =
     \<lparr>fs = fs0,
      m_packageLocations =
        [(''a'', \<lparr>pathWithinRepo = ''/repo/a.pkg'', storageLocation = []\<rparr>, True),
         (''b'', \<lparr>pathWithinRepo = ''/repo/b.pkg'', storageLocation = []\<rparr>, True)],
      m_result = \<lparr>failedPackages = [], processedPackages = [], errorMessage = []\<rparr>,
      m_addErrorMessage = []\<rparr>"

definition exited :: "int \<Rightarrow> ProcessResult" where
  "exited code = \<lparr>errorCode = 0, errorCodeMessage = [], error = [], exitCode = code\<rparr>"

subsection \<open>CleanRepository\<close>

text \<open>The local types of \<^verbatim>\<open>CleanRepository::run\<close>. The classification phase fills a
  \<^verbatim>\<open>RepoDir\<close> per repository directory and only reads the file system; the loop that
  follows it ("do the actual file system operations") is modelled below. Its log output
  (\<^verbatim>\<open>appendOutput\<close> with the count of processed items) is left out.\<close>

datatype RepoDirType = New | ArchSpecific | Any | Src

record RepoDir =
  canonicalPath :: string
  toArchive :: "(string \<times> string) list"
  toDelete :: "string list"
  relevantDbs :: "string list"
  type :: RepoDirType

fun deleteFiles :: "bool \<Rightarrow> string list \<Rightarrow> filesystem \<Rightarrow> BuildActionMessages \<Rightarrow> filesystem \<times> BuildActionMessages" where
  "deleteFiles m_dryRun [] f m = (f, m)"
| "deleteFiles m_dryRun (file # rest) f m =
     (case (if \<not> m_dryRun then remove_file f file else Inr f) of
        Inr f' \<Rightarrow> deleteFiles m_dryRun rest f' (m\<lparr>notes := notes m @ [''Deleted '' @ file]\<rparr>)
      | Inl e \<Rightarrow> deleteFiles m_dryRun rest f (m\<lparr>errors := errors m @ [''Unable to delete: '' @ what e]\<rparr>))"

fun archiveFiles ::
  "bool \<Rightarrow> string \<Rightarrow> (string \<times> string) list \<Rightarrow> filesystem \<Rightarrow> BuildActionMessages \<Rightarrow> filesystem \<times> BuildActionMessages" where
  "archiveFiles m_dryRun archiveDir [] f m = (f, m)"
| "archiveFiles m_dryRun archiveDir ((path, referencedPath) # rest) f m =
     (case (if \<not> m_dryRun then rename f path (path_append archiveDir (filename path)) else Inr f) of
        Inr f' \<Rightarrow>
          archiveFiles m_dryRun archiveDir rest f'
            (m\<lparr>notes := notes m @ [''Archived '' @ path @ '' (current version: ''
                   @ (if referencedPath = [] then ''removed'' else referencedPath) @ '')'']\<rparr>)
      | Inl e \<Rightarrow>
          archiveFiles m_dryRun archiveDir rest f (m\<lparr>errors := errors m @ [''Unable to archive: '' @ what e]\<rparr>))"

fun cleanRepoDirs ::
  "bool \<Rightarrow> (string \<times> RepoDir) list \<Rightarrow> filesystem \<Rightarrow> BuildActionMessages \<Rightarrow> filesystem \<times> BuildActionMessages" where
  "cleanRepoDirs m_dryRun [] f m = (f, m)"
| "cleanRepoDirs m_dryRun ((dirName, dirInfo) # rest) f m =
     (if type dirInfo = Src then cleanRepoDirs m_dryRun rest f m
      else
        (case deleteFiles m_dryRun (toDelete dirInfo) f m of
           (f1, m1) \<Rightarrow>
             (let archiveDir = path_append (canonicalPath dirInfo) ''archive''
              in case (if \<not> is_directory f1 archiveDir then create_directory f1 archiveDir else Inr f1) of
                   Inl e \<Rightarrow>
                     cleanRepoDirs m_dryRun rest f1
                       (m1\<lparr>errors := errors m1 @ [''Unable to create archive directory: '' @ what e]\<rparr>)
                 | Inr f2 \<Rightarrow>
                     (case archiveFiles m_dryRun archiveDir (toArchive dirInfo) f2 m1 of
                        (f3, m3) \<Rightarrow> cleanRepoDirs m_dryRun rest f3 m3))))"

text \<open>Sample data: an arch-specific repository directory that holds one outdated package and
  has no archive directory yet.\<close>

definition fsClean :: filesystem where
  "fsClean =
     \<lparr>nodes = (\<lambda>p. if p = ''/repo/x86_64'' then Some Directory
                    else if p = ''/repo/x86_64/old-1-1-x86_64.pkg.tar.zst'' then Some RegularFile
                    else None),
      readOnly = (\<lambda>p. False)\<rparr>"

definition repoDirs0 :: "(string \<times> RepoDir) list" where
  "repoDirs0 =
     [(''/repo/x86_64'',
       \<lparr>canonicalPath = ''/repo/x86_64'',
        toArchive = [(''/repo/x86_64/old-1-1-x86_64.pkg.tar.zst'', [])],
        toDelete = [], relevantDbs = [''core''], type = ArchSpecific\<rparr>)]"

definition noMessages :: BuildActionMessages where
  "noMessages = \<lparr>errors = [], warnings = [], notes = []\<rparr>"

section \<open>Databases and their dependency indices (libpkg/data/database.h)\<close>

text \<open>
  Modelled from the spec: the members of \<^verbatim>\<open>DependencySet\<close> and of \<^verbatim>\<open>Database\<close> used by the
  write-back phase (database.cpp, package.cpp) are not among the sources; only the declarations
  in database.h are. The specification describes a dependency set as a mapping from a name to
  an ordered sequence of (version constraint, relevant packages), with insertion idempotent
  over (name, version constraint) and removal per (name, package), and it requires that every
  package of a database is listed in \<^verbatim>\<open>providedDeps\<close> under its name and its provides, in
  \<^verbatim>\<open>providedLibs\<close> under its libprovides, and symmetrically for the required indices.
  The indices refer to a package by its key in \<^verbatim>\<open>packages\<close>.
\<close>

record DependencyDetail =
  detailVersion :: string
  detailMode :: DependencyMode
  relevantPackages :: "string list"

type_synonym DependencySet = "string \<Rightarrow> DependencyDetail list"

definition sameConstraint :: "Dependency \<Rightarrow> DependencyDetail \<Rightarrow> bool" where
  "sameConstraint d x = (detailVersion x = depVersion d \<and> detailMode x = depMode d)"

definition depset_add :: "Dependency \<Rightarrow> string \<Rightarrow> DependencySet \<Rightarrow> DependencySet" where
  "depset_add d p ds =
     (if list_ex (sameConstraint d) (ds (depName d))
      then ds(depName d :=
             map (\<lambda>x. if sameConstraint d x \<and> p \<notin> set (relevantPackages x)
                       then x\<lparr>relevantPackages := relevantPackages x @ [p]\<rparr> else x)
               (ds (depName d)))
      else ds(depName d := ds (depName d)
             @ [\<lparr>detailVersion = depVersion d, detailMode = depMode d, relevantPackages = [p]\<rparr>]))"

definition depset_remove :: "string \<Rightarrow> string \<Rightarrow> DependencySet \<Rightarrow> DependencySet" where
  "depset_remove n p ds =
     ds(n := filter (\<lambda>x. relevantPackages x \<noteq> [])
               (map (\<lambda>x. x\<lparr>relevantPackages := removeAll p (relevantPackages x)\<rparr>) (ds n)))"

definition depset_lists :: "DependencySet \<Rightarrow> string \<Rightarrow> string \<Rightarrow> bool" where
  "depset_lists ds n p = list_ex (\<lambda>x. p \<in> set (relevantPackages x)) (ds n)"

record Database =
  db_name :: string
  db_arch :: string
  packages :: "string \<Rightarrow> Package option"
  providedDeps :: DependencySet
  requiredDeps :: DependencySet
  providedLibs :: "string \<Rightarrow> string list"
  requiredLibs :: "string \<Rightarrow> string list"

definition selfDependency :: "Package \<Rightarrow> Dependency" where
  "selfDependency p = \<lparr>depName = name p, depVersion = version p, depMode = AnyVersion\<rparr>"

definition addPackageDependencies :: "string \<Rightarrow> Package \<Rightarrow> Database \<Rightarrow> Database" where
  "addPackageDependencies key p db =
     db\<lparr>providedDeps := fold (\<lambda>d. depset_add d key) (selfDependency p # provides p) (providedDeps db),
        requiredDeps := fold (\<lambda>d. depset_add d key) (dependencies p) (requiredDeps db),
        providedLibs := fold (\<lambda>l m. m(l := (if key \<in> set (m l) then m l else m l @ [key]))) (libprovides p) (providedLibs db),
        requiredLibs := fold (\<lambda>l m. m(l := (if key \<in> set (m l) then m l else m l @ [key]))) (libdepends p) (requiredLibs db)\<rparr>"

definition removePackageDependencies :: "string \<Rightarrow> Package \<Rightarrow> Database \<Rightarrow> Database" where
  "removePackageDependencies key p db =
     db\<lparr>providedDeps := fold (\<lambda>n. depset_remove n key) (name p # map depName (provides p)) (providedDeps db),
        requiredDeps := fold (\<lambda>n. depset_remove n key) (map depName (dependencies p)) (requiredDeps db),
        providedLibs := fold (\<lambda>l m. m(l := removeAll key (m l))) (libprovides p) (providedLibs db),
        requiredLibs := fold (\<lambda>l m. m(l := removeAll key (m l))) (libdepends p) (requiredLibs db)\<rparr>"

text \<open>The reachability invariant, for the package stored under a key.\<close>

definition reachable :: "Database \<Rightarrow> string \<Rightarrow> Package \<Rightarrow> bool" where
  "reachable db key p =
     (depset_lists (providedDeps db) (name p) key
      \<and> list_all (\<lambda>d. depset_lists (providedDeps db) (depName d) key) (provides p)
      \<and> list_all (\<lambda>d. depset_lists (requiredDeps db) (depName d) key) (dependencies p)
      \<and> list_all (\<lambda>l. key \<in> set (providedLibs db l)) (libprovides p)
      \<and> list_all (\<lambda>l. key \<in> set (requiredLibs db l)) (libdepends p))"


section \<open>ReloadLibraryDependencies (librepomgr/buildactions/reloadlibrarydependencies.cpp)\<close>

record PackageToConsider =
  path :: string
  url :: string
  lastModified :: nat
  info :: Package

record DatabaseToConsider =
  dtc_name :: string
  dtc_arch :: string
  dtc_packages :: "PackageToConsider list"

record ReloadLibraryDependencies =
  m_relevantPackagesByDatabase :: "DatabaseToConsider list"
  m_messages :: BuildActionMessages
  databases :: "Database list"
  resultData :: "BuildActionMessages option"
  result :: BuildActionResult




text \<open>The write-back phase ("store the information in the database") for the packages of one
  database. The \<^verbatim>\<open>continue\<close> after a failed merge comes after
  \<^verbatim>\<open>removePackageDependencies\<close>.\<close>

fun writeBackPackages :: "PackageToConsider list \<Rightarrow> Database \<Rightarrow> Database" where
  "writeBackPackages [] db = db"
| "writeBackPackages (package # rest) db =
     (if origin (info package) \<noteq> PackageContents then writeBackPackages rest db
      else
        (case packages db (name (info package)) of
           None \<Rightarrow> writeBackPackages rest db
         | Some existingPackage \<Rightarrow>
             (let db1 = removePackageDependencies (name (info package)) existingPackage db;
                  merge = addDepsAndProvidesFromOtherPackage existingPackage (info package)
              in if \<not> fst merge then writeBackPackages rest db1
                 else
                   (let merged = (if timestamp (snd merge) < lastModified package
                                  then (snd merge)\<lparr>timestamp := lastModified package\<rparr> else snd merge);
                        db2 = db1\<lparr>packages := (packages db1)(name (info package) := Some merged)\<rparr>
                    in writeBackPackages rest (addPackageDependencies (name (info package)) merged db2)))))"






section \<open>The client (cli/main.cpp)\<close>

text \<open>What the printer passed to \<^verbatim>\<open>handleResponse\<close> does with a response body: it prints, or
  throws \<^verbatim>\<open>RAPIDJSON_NAMESPACE::ParseResult\<close>, or throws \<^verbatim>\<open>std::runtime_error\<close>.\<close>

datatype PrinterOutcome = Printed | ThrowsParseResult | ThrowsRuntimeError string

datatype ClientErrorCode = success | stream_truncated | other_error

record Response =
  status :: nat
  body :: string

definition handleResponse :: "Response \<Rightarrow> ClientErrorCode \<Rightarrow> (string \<Rightarrow> PrinterOutcome) \<Rightarrow> int \<Rightarrow> int" where
  "handleResponse response err printer returnCode =
     (if err \<noteq> success \<and> err \<noteq> stream_truncated then returnCode
      else if status response \<noteq> 200 then returnCode
      else (case printer (body response) of
              Printed \<Rightarrow> returnCode
            | ThrowsParseResult \<Rightarrow> 11
            | ThrowsRuntimeError e \<Rightarrow> 12))"

text \<open>An invocation of the client: the printer that the operation's callback selected (none
  without an operation), the outcome of \<^verbatim>\<open>ClientConfig::parse\<close> (the message of the
  \<^verbatim>\<open>std::runtime_error\<close>, or the URL of the instance), and the response and error that the
  session hands to the handler.\<close>

record Invocation =
  printer :: "(string \<Rightarrow> PrinterOutcome) option"
  configParse :: "string + string"
  response :: Response
  responseError :: ClientErrorCode

text \<open>\<^verbatim>\<open>main\<close>: \<^verbatim>\<open>returnCode\<close> is the local variable that \<^verbatim>\<open>handleResponse\<close> writes through
  its reference parameter; the function ends with \<^verbatim>\<open>return 0\<close>.\<close>

definition client_main :: "Invocation \<Rightarrow> int" where
  "client_main call =
     (case printer call of
        None \<Rightarrow> 0
      | Some pr \<Rightarrow>
          (case configParse call of
             Inl e \<Rightarrow> 10
           | Inr configUrl \<Rightarrow>
               (let returnCode = handleResponse (response call) (responseError call) pr 0
                in 0)))"

definition printer0 :: "string \<Rightarrow> PrinterOutcome" where
  "printer0 b = (if b = ''[]'' then Printed else ThrowsParseResult)"

definition invocation0 :: Invocation where
  "invocation0 =
     \<lparr>printer = Some printer0,
      configParse = Inr ''https://localhost:8090'',
      response = \<lparr>status = 200, body = ''<html>''\<rparr>,
      responseError = success\<rparr>"

text \<open>Sample data for the write-back phase: the database holds foo in version 2 (it was
  updated while the binary of version 1 was being parsed) with its projections registered, and
  the parsed package still carries version 1.\<close>

definition emptyDatabase :: Database where
  "emptyDatabase =
     \<lparr>db_name = ''core'', db_arch = ''x86_64'', packages = (\<lambda>k. None),
      providedDeps = (\<lambda>n. []), requiredDeps = (\<lambda>n. []),
      providedLibs = (\<lambda>l. []), requiredLibs = (\<lambda>l. [])\<rparr>"

definition foo2 :: Package where
  "foo2 = (pkg ''foo'' ''2'' [''elf-x86_64::libfoo.so.2''])\<lparr>libdepends := [''elf-x86_64::libc.so.6'']\<rparr>"

definition database0 :: Database where
  "database0 =
     addPackageDependencies ''foo'' foo2 (emptyDatabase\<lparr>packages := (\<lambda>k. if k = ''foo'' then Some foo2 else None)\<rparr>)"

definition parsedFoo1 :: PackageToConsider where
  "parsedFoo1 =
     \<lparr>path = ''/repo/foo-1-1-x86_64.pkg.tar.zst'', url = [], lastModified = 5,
      info = (pkg ''foo'' ''1'' [''elf-x86_64::libfoo.so.1''])\<lparr>origin := PackageContents\<rparr>\<rparr>"



section \<open>Build action meta info (librepomgr/buildactions/buildactionmeta.cpp)\<close>

text \<open>
  The types of the table are declared in buildactionmeta.h and buildaction.h, which are not
  among the sources. \<^verbatim>\<open>BuildActionType\<close> has the enumerators the table lists; a flag's id
  is the enumerator of the action's flag enumeration it is cast from. The members a table
  entry does not name take their default member initializers: strings and lists are empty,
  and the defaults of the four boolean members are a parameter.
\<close>

datatype BuildActionType =
    Invalid | RemovePackages | MovePackages | CheckForUpdates | ReloadDatabase
  | ReloadLibraryDependencies | PrepareBuild | ConductBuild | MakeLicenseInfo
  | ReloadConfiguration | CheckForProblems | CleanRepository | DummyBuildAction | CustomCommand

datatype BuildActionFlagType =
    ForceReload | SkipDependencies
  | ForceBumpPkgRel | CleanSrcDir | KeepOrder | KeepPkgRelAndEpoch
  | BuildAsFarAsPossible | SaveChrootOfFailures | UpdateChecksums | AutoStaging
  | DryRun

record BuildActionFlagMetaInfo =
  flag_id :: BuildActionFlagType
  flag_name :: string
  flag_desc :: string
  flag_param :: string

record BuildActionSettingMetaInfo =
  setting_name :: string
  setting_desc :: string
  setting_param :: string

record BuildActionTypeMetaInfo =
  mi_id :: BuildActionType
  mi_category :: string
  mi_name :: string
  mi_type :: string
  mi_flags :: "BuildActionFlagMetaInfo list"
  mi_settings :: "BuildActionSettingMetaInfo list"
  mi_directory :: bool
  mi_sourceDb :: bool
  mi_destinationDb :: bool
  mi_packageNames :: bool

record MemberDefaults =
  default_directory :: bool
  default_sourceDb :: bool
  default_destinationDb :: bool
  default_packageNames :: bool

definition typeInfo ::
  "BuildActionType \<Rightarrow> string \<Rightarrow> string \<Rightarrow> string \<Rightarrow> BuildActionFlagMetaInfo list
     \<Rightarrow> BuildActionSettingMetaInfo list \<Rightarrow> bool \<Rightarrow> bool \<Rightarrow> bool \<Rightarrow> bool \<Rightarrow> BuildActionTypeMetaInfo" where
  "typeInfo i c n t fl se d s dd p =
     \<lparr>mi_id = i, mi_category = c, mi_name = n, mi_type = t, mi_flags = fl, mi_settings = se,
      mi_directory = d, mi_sourceDb = s, mi_destinationDb = dd, mi_packageNames = p\<rparr>"

definition flagInfo :: "BuildActionFlagType \<Rightarrow> string \<Rightarrow> string \<Rightarrow> string \<Rightarrow> BuildActionFlagMetaInfo" where
  "flagInfo i n d p = \<lparr>flag_id = i, flag_name = n, flag_desc = d, flag_param = p\<rparr>"

definition settingInfo :: "string \<Rightarrow> string \<Rightarrow> string \<Rightarrow> BuildActionSettingMetaInfo" where
  "settingInfo n d p = \<lparr>setting_name = n, setting_desc = d, setting_param = p\<rparr>"

text \<open>The member \<^verbatim>\<open>types\<close> as the constructor \<^verbatim>\<open>BuildActionMetaInfo::BuildActionMetaInfo\<close>
  initializes it.\<close>

definition types :: "MemberDefaults \<Rightarrow> BuildActionTypeMetaInfo list" where
  "types dflt =
   [typeInfo Invalid [] ''Invalid'' [] [] []
      (default_directory dflt) (default_sourceDb dflt) (default_destinationDb dflt) (default_packageNames dflt),
    typeInfo RemovePackages ''Repo management'' ''Remove packages'' ''remove-packages'' [] []
      True False True True,
    typeInfo MovePackages ''Repo management'' ''Move packages'' ''move-packages'' [] []
      True True True True,
    typeInfo CheckForUpdates ''Repo management'' ''Check for updates'' ''check-updates'' [] []
      False True True False,
    typeInfo ReloadDatabase ''Repo management'' ''Reload databases'' ''reload-database'' [] []
      False False True False,
    typeInfo ReloadLibraryDependencies ''Refresh data'' ''Reload library dependencies''
      ''reload-library-dependencies''
      [flagInfo ForceReload ''Force reload''
         ''Reload packages as well even though they have not changed on disk since the last reload''
         ''force-reload'',
       flagInfo SkipDependencies ''Skip dependencies''
         ''Do not take dependencies of the specified destination databases into account''
         ''skip-dependencies'']
      []
      False False True False,
    typeInfo PrepareBuild ''Building'' ''Prepare build'' ''prepare-build''
      [flagInfo ForceBumpPkgRel ''Force-bump pkgrel''
         ''Bump the pkgrel of the packages even if there is no existing version''
         ''force-bump-pkgrel'',
       flagInfo CleanSrcDir ''Clean source directory''
         (''Removes existing '' @ [CHR 0x22] @ ''src'' @ [CHR 0x22]
            @ '' sub-directories for the specified packages in the directory; use to update previously built packages'')
         ''clean-src-dir'',
       flagInfo KeepOrder ''Keep dependency order''
         ''Build packages in the specified order''
         ''keep-order'',
       flagInfo KeepPkgRelAndEpoch ''Keep pkgrel/epoch''
         ''Never bumps pkgrel and epoch''
         ''keep-pkgrel-and-epoch'']
      [settingInfo ''PKGBUILDs directory''
         ''A colon separated list of PKGBUILDs directories to consider before checking the standard directories''
         ''pkgbuilds-dir'']
      True True True True,
    typeInfo ConductBuild ''Building'' ''Conduct build'' ''conduct-build''
      [flagInfo BuildAsFarAsPossible ''Build as far as possible''
         ''By default the next batch is only considered when all packages in the previous batch succeeded; this option allows to build as far as possible instead''
         ''build-as-far-as-possible'',
       flagInfo SaveChrootOfFailures ''Save chroot of failures''
         ''Renames the chroot working copy when a package failed to build so it will not be overridden by further builds and can be used for further investigation''
         ''save-chroot-of-failures'',
       flagInfo UpdateChecksums ''Update checksums''
         ''Assumes that the checksums of the PKGBUILDs are outdated and will therefore update the checksums instead of using them for validation''
         ''update-checksums'',
       flagInfo AutoStaging ''Auto-staging''
         (''Adds '' @ [CHR 0x22] @ ''breaking'' @ [CHR 0x22]
            @ '' packages only to the destination DB's staging repsitory and emits a rebuild list'')
         ''auto-staging'']
      [settingInfo ''Chroot directory''
         ''The chroot directory to use (instead of the globally configured one)''
         ''chroot-dir'',
       settingInfo ''Chroot default user''
         ''The default chroot user to use (instead of the globally configured one)''
         ''chroot-dir'',
       settingInfo ''CCache directory''
         ''The ccache directory to use (instead of the globally configured one)''
         ''ccache-dir'',
       settingInfo ''Package cache directory''
         ''The package cache directory to use (instead of the globally configured one)''
         ''pkg-cache-dir'',
       settingInfo ''Test files directory''
         ''The test files directory to use (instead of the globally configured one)''
         ''test-files-dir'']
      True False False True,
    typeInfo MakeLicenseInfo ''Misc'' ''Make license info'' ''make-license-info'' [] []
      False False False True,
    typeInfo ReloadConfiguration ''Refresh data'' ''Reload configuration'' ''reload-configuration'' [] []
      False False False False,
    typeInfo CheckForProblems ''Repo management'' ''Check for problems'' ''check-for-problems'' [] []
      True False True True,
    typeInfo CleanRepository ''Repo management'' ''Clean repository'' ''clean-repository''
      [flagInfo DryRun ''Dry run'' ''Only record what would be done'' ''dry-run'']
      []
      True False True True,
    typeInfo DummyBuildAction ''Misc'' ''Dummy action for debugging'' ''dummy'' [] []
      True False False False,
    typeInfo CustomCommand ''Misc'' ''Execute custom Bash command'' ''custom-command'' []
      [settingInfo ''Command'' ''The command to execute via Bash'' ''cmd'']
      True False False False]"

text \<open>\<^verbatim>\<open>mapByName\<close>: \<^verbatim>\<open>map.insert\<close> keeps the element that is already stored under a key.\<close>

definition mapByName :: "'a list \<Rightarrow> ('a \<Rightarrow> 'k) \<Rightarrow> ('k \<Rightarrow> 'a option)" where
  "mapByName iteratable memberPtr =
     fold (\<lambda>element m. if m (memberPtr element) = None then m(memberPtr element := Some element) else m)
       iteratable (\<lambda>k. None)"

definition m_typeInfoByName :: "MemberDefaults \<Rightarrow> string \<Rightarrow> BuildActionTypeMetaInfo option" where
  "m_typeInfoByName dflt = mapByName (types dflt) mi_type"

text \<open>
  Modelled from the spec: \<^verbatim>\<open>BuildActionMetaInfo::typeInfoForId\<close> is defined in
  buildactionmeta.h, which is not among the sources. The specification says that the lookup
  returns the info of the id or the \<open>Invalid\<close> sentinel.
\<close>

definition typeInfoForId :: "MemberDefaults \<Rightarrow> BuildActionType \<Rightarrow> BuildActionTypeMetaInfo" where
  "typeInfoForId dflt i =
     (case List.find (\<lambda>ti. mi_id ti = i) (types dflt) of
        Some ti \<Rightarrow> ti
      | None \<Rightarrow> hd (types dflt))"

text \<open>\<^verbatim>\<open>BuildActionMetaInfo::typeInfoForName\<close>\<close>

definition typeInfoForName :: "MemberDefaults \<Rightarrow> string \<Rightarrow> BuildActionTypeMetaInfo" where
  "typeInfoForName dflt n =
     (case m_typeInfoByName dflt n of
        Some ti \<Rightarrow> ti
      | None \<Rightarrow> typeInfoForId dflt Invalid)"

definition defaults0 :: MemberDefaults where
  "defaults0 =
     \<lparr>default_directory = True, default_sourceDb = True, default_destinationDb = True,
      default_packageNames = True\<rparr>"

text \<open>The invariant that ties the cache to the backing tables: every cached entry has a
  non-zero id under which its table holds a package of the entry's name, and the ids and the
  names of each table are unique.\<close>

definition rows_ok :: "PackageStorage \<Rightarrow> bool" where
  "rows_ok rows = (distinct (map fst rows) \<and> distinct (map (\<lambda>row. name (snd row)) rows))"

definition backed :: "PackageStorage \<Rightarrow> StorageCacheEntry \<Rightarrow> bool" where
  "backed rows c =
     (id_of c \<noteq> 0 \<and> list_ex (\<lambda>row. fst row = id_of c \<and> name (snd row) = entryName (ref c)) rows)"

definition coherent :: "World \<Rightarrow> bool" where
  "coherent w =
     (list_all (\<lambda>c. backed (storages w (relatedStorage (ref c))) c) (m_entries (cache w))
      \<and> (\<forall>s. rows_ok (storages w s)))"

section \<open>Properties\<close>

lemma length_relocate_front:
  "List.find p xs = Some x \<Longrightarrow> length (relocate_front x xs) = length xs"
  by (auto simp: relocate_front_def find_Some_iff length_remove1 in_set_conv_nth
      intro!: Suc_pred)

subsection \<open>The LRU cache stays within its capacity\<close>

lemma find_cache_limit: "m_limit (snd (find_cache p c)) = m_limit c"
  by (simp add: find_cache_def split: option.splits)

lemma find_cache_length: "length (m_entries (snd (find_cache p c))) = length (m_entries c)"
  by (simp add: find_cache_def length_relocate_front split: option.splits)

lemma clash_find: "clash e xs = Some x \<Longrightarrow> \<exists>p. List.find p xs = Some x"
  by (auto simp: clash_def split: option.splits)

lemma insert_cache_limit: "m_limit (insert_cache e c) = m_limit c"
  by (simp add: insert_cache_def split: option.splits)

lemma insert_cache_within: "within_limit c \<Longrightarrow> within_limit (insert_cache e c)"
  by (auto simp: insert_cache_def within_limit_def length_relocate_front split: option.splits dest!: clash_find)

lemma erase_cache_within: "within_limit c \<Longrightarrow> within_limit (erase_cache r c)"
  by (auto simp: erase_cache_def within_limit_def intro: le_trans[OF length_filter_le])

lemma length_update_front: "length (update_front f xs) = length xs"
  by (simp add: update_front_def split: list.splits)

lemma find_cache_within: "within_limit c \<Longrightarrow> within_limit (snd (find_cache p c))"
  by (simp add: within_limit_def find_cache_limit find_cache_length)

lemma retrieve_within: "within_limit (cache w) \<Longrightarrow> within_limit (cache (snd (retrieve w s n)))"
  by (auto simp: retrieve_def Let_def find_cache_within insert_cache_within split: option.splits)

lemma retrieve_limit: "m_limit (cache (snd (retrieve w s n))) = m_limit (cache w)"
  by (auto simp: retrieve_def Let_def find_cache_limit insert_cache_limit split: option.splits)

lemma upd_within: "within_limit c \<Longrightarrow> within_limit (c\<lparr>m_entries := update_front f (m_entries c)\<rparr>)"
  by (simp add: within_limit_def length_update_front)

lemma store_within: "within_limit (cache w) \<Longrightarrow> within_limit (cache (snd (store w s e force)))"
  by (auto simp: store_def Let_def find_cache_within insert_cache_within upd_within split: option.splits)

lemma store_limit: "m_limit (cache (snd (store w s e force))) = m_limit (cache w)"
  by (auto simp: store_def Let_def find_cache_limit insert_cache_limit split: option.splits)

lemma invalidate_within: "within_limit (cache w) \<Longrightarrow> within_limit (cache (snd (invalidate w s n)))"
  by (auto simp: invalidate_def Let_def erase_cache_within split: option.splits)

lemma invalidate_limit: "m_limit (cache (snd (invalidate w s n))) = m_limit (cache w)"
  by (auto simp: invalidate_def Let_def erase_cache_def split: option.splits)

lemma apply_op_within: "within_limit (cache w) \<Longrightarrow> within_limit (cache (apply_op w op))"
  by (cases op) (simp_all add: retrieve_within store_within invalidate_within insert_cache_within)

lemma apply_op_limit: "m_limit (cache (apply_op w op)) = m_limit (cache w)"
  by (cases op) (simp_all add: retrieve_limit store_limit invalidate_limit insert_cache_limit)

lemma run_ops_within:
  "within_limit (cache w) \<Longrightarrow> within_limit (cache (run_ops w ops)) \<and> m_limit (cache (run_ops w ops)) = m_limit (cache w)"
  unfolding run_ops_def
  by (induction ops arbitrary: w) (simp_all add: apply_op_within apply_op_limit)

lemma find_hit_front:
  "find_cache p c = (Some x, c') \<Longrightarrow> m_entries c' = x # remove1 x (m_entries c) \<and> p x \<and> x \<in> set (m_entries c)"
  by (auto simp: find_cache_def relocate_front_def find_Some_iff split: option.splits)

lemma insert_full_evicts:
  "clash e (m_entries c) = None \<Longrightarrow> length (m_entries c) = m_limit c \<Longrightarrow>
   m_entries (insert_cache e c) = butlast (e # m_entries c)"
  by (simp add: insert_cache_def)

text \<open>
  Claim C9. The in-memory LRU cache never holds more entries than its capacity: a cache within
  its limit is within its limit after any sequence of retrieve, store, invalidate and insert
  operations (and the limit itself never changes); a hit of \<^verbatim>\<open>find\<close> moves the found entry
  to the front (the most recently used position); inserting an entry that clashes with no
  cached one into a full cache drops the entry at the back (the least recently used one); and
  \<^verbatim>\<open>find\<close> on either index and \<^verbatim>\<open>insert\<close> each keep a cache within its limit.
\<close>

theorem lru_cache_bounded:
  "(within_limit (cache w) \<longrightarrow>
      within_limit (cache (run_ops w ops)) \<and> m_limit (cache (run_ops w ops)) = m_limit (cache w))
   \<and> (find_cache p c = (Some x, c') \<longrightarrow>
      m_entries c' = x # remove1 x (m_entries c) \<and> p x \<and> x \<in> set (m_entries c))
   \<and> (clash e (m_entries c) = None \<and> length (m_entries c) = m_limit c \<longrightarrow>
      m_entries (insert_cache e c) = butlast (e # m_entries c))
   \<and> (within_limit c \<longrightarrow> within_limit (snd (find_cache p c)) \<and> within_limit (insert_cache e c))"
  using run_ops_within find_hit_front insert_full_evicts find_cache_within insert_cache_within by blast

theorem lru_cache_bounded_witness:
  "within_limit (cache world0)
   \<and> within_limit (cache (run_ops world0 ops0))
   \<and> find_cache (byRef \<lparr>relatedStorage = 0, entryName = ''bar''\<rparr>) (cache world0)
       = (Some (cacheEntry0 0 ''bar'' 2 1), \<lparr>m_entries = [cacheEntry0 0 ''bar'' 2 1, cacheEntry0 0 ''foo'' 1 0], m_limit = 2\<rparr>)
   \<and> clash (cacheEntry0 0 ''baz'' 3 2) (m_entries (cache world0)) = None
   \<and> length (m_entries (cache world0)) = m_limit (cache world0)
   \<and> m_entries (insert_cache (cacheEntry0 0 ''baz'' 3 2) (cache world0)) = [cacheEntry0 0 ''baz'' 3 2, cacheEntry0 0 ''foo'' 1 0]"
proof -
  have a: "within_limit (cache world0)"
    by (simp add: within_limit_def world0_def)
  have b: "find_cache (byRef \<lparr>relatedStorage = 0, entryName = ''bar''\<rparr>) (cache world0)
       = (Some (cacheEntry0 0 ''bar'' 2 1), \<lparr>m_entries = [cacheEntry0 0 ''bar'' 2 1, cacheEntry0 0 ''foo'' 1 0], m_limit = 2\<rparr>)"
    by (simp add: find_cache_def byRef_def world0_def cacheEntry0_def relocate_front_def)
  have c: "clash (cacheEntry0 0 ''baz'' 3 2) (m_entries (cache world0)) = None \<and> length (m_entries (cache world0)) = m_limit (cache world0)"
    by (simp add: clash_def byRef_def byID_def world0_def cacheEntry0_def)
  have d: "butlast (cacheEntry0 0 ''baz'' 3 2 # m_entries (cache world0)) = [cacheEntry0 0 ''baz'' 3 2, cacheEntry0 0 ''foo'' 1 0]"
    by (simp add: world0_def)
  from lru_cache_bounded[of world0 ops0 "byRef \<lparr>relatedStorage = 0, entryName = ''bar''\<rparr>" "cache world0"
        "cacheEntry0 0 ''bar'' 2 1" "\<lparr>m_entries = [cacheEntry0 0 ''bar'' 2 1, cacheEntry0 0 ''foo'' 1 0], m_limit = 2\<rparr>"
        "cacheEntry0 0 ''baz'' 3 2"] a b c d
  show ?thesis by simp
qed

subsection \<open>Storing, retrieving and invalidating cache entries\<close>

lemma find_cache_None: "List.find p (m_entries c) = None \<Longrightarrow> find_cache p c = (None, c)"
  by (simp add: find_cache_def)

lemma find_cache_Some:
  "List.find p (m_entries c) = Some x \<Longrightarrow>
   find_cache p c = (Some x, c\<lparr>m_entries := x # remove1 x (m_entries c)\<rparr>)"
  by (simp add: find_cache_def relocate_front_def)

lemma name_addDeps [simp]: "name (snd (addDepsAndProvidesFromOtherPackage p q)) = name p"
  by (simp add: addDepsAndProvidesFromOtherPackage_def)

lemma store_noop:
  assumes "List.find (byRef (keyOf w s e)) (m_entries (cache w)) = Some ce" "entry ce = e" "\<not> force"
  shows "store w s e force =
    (\<lparr>res_id = id_of ce, oldEntry = Some e, updated = False\<rparr>,
     w\<lparr>cache := (cache w)\<lparr>m_entries := ce # remove1 ce (m_entries (cache w))\<rparr>\<rparr>)"
  using assms by (simp add: store_def keyOf_def find_cache_Some Let_def)

lemma store_hit:
  assumes "List.find (byRef (keyOf w s e)) (m_entries (cache w)) = Some ce" "\<not> (entry ce = e \<and> \<not> force)"
  shows "store w s e force =
    (let h = (heap w)(e := snd (addDepsAndProvidesFromOtherPackage (heap w e) (heap w (entry ce))));
         pt = txn_put (h e) (id_of ce) (storages w s)
     in (\<lparr>res_id = fst pt, oldEntry = Some (entry ce), updated = True\<rparr>,
         w\<lparr>heap := h,
           cache := (cache w)\<lparr>m_entries := ce\<lparr>ref := keyOf w s e, entry := e\<rparr> # remove1 ce (m_entries (cache w))\<rparr>,
           storages := (storages w)(s := snd pt)\<rparr>))"
  using assms by (auto simp add: store_def keyOf_def find_cache_Some Let_def update_front_def)

lemma store_miss_stored:
  assumes "List.find (byRef (keyOf w s e)) (m_entries (cache w)) = None"
    "txn_get0 (name (heap w e)) (storages w s) = Some row"
  shows "store w s e force =
    (let a = nextAddr w;
         h0 = (heap w)(a := snd row);
         h = h0(e := snd (addDepsAndProvidesFromOtherPackage (h0 e) (h0 a)));
         pt = txn_put (h e) 0 (storages w s);
         c0 = insert_cache \<lparr>ref = keyOf w s e, id_of = fst pt, entry = e\<rparr> (cache w)
     in (\<lparr>res_id = fst pt, oldEntry = Some a, updated = True\<rparr>,
         w\<lparr>heap := h, nextAddr := Suc a,
           cache := c0\<lparr>m_entries := update_front (\<lambda>x. x\<lparr>entry := e\<rparr>) (m_entries c0)\<rparr>,
           storages := (storages w)(s := snd pt)\<rparr>))"
  using assms by (simp add: store_def keyOf_def find_cache_None Let_def)

lemma store_miss_new:
  assumes "List.find (byRef (keyOf w s e)) (m_entries (cache w)) = None"
    "txn_get0 (name (heap w e)) (storages w s) = None"
  shows "store w s e force =
    (let pt = txn_put (heap w e) 0 (storages w s);
         c0 = insert_cache \<lparr>ref = keyOf w s e, id_of = fst pt, entry = e\<rparr> (cache w)
     in (\<lparr>res_id = fst pt, oldEntry = None, updated = True\<rparr>,
         w\<lparr>cache := c0\<lparr>m_entries := update_front (\<lambda>x. x\<lparr>entry := e\<rparr>) (m_entries c0)\<rparr>,
           storages := (storages w)(s := snd pt)\<rparr>))"
  using assms by (simp add: store_def keyOf_def find_cache_None Let_def)

lemma txn_put_id: "fst (txn_put p i rows) = (if i = 0 then getMaxID rows + 1 else i)"
  by (simp add: txn_put_def Let_def)

lemma txn_put_nonzero: "fst (txn_put p i rows) \<noteq> 0"
  by (simp add: txn_put_id)

lemma txn_get0_put: "txn_get0 (name p) (snd (txn_put p i rows)) = Some (fst (txn_put p i rows), p)"
  by (simp add: txn_get0_def txn_find0_def txn_put_def Let_def)

lemma find_byRef_None: "List.find (byRef r) xs = None \<Longrightarrow> x \<in> set xs \<Longrightarrow> ref x \<noteq> r"
  by (auto simp: find_None_iff byRef_def)









lemma store_updated_iff:
  "updated (fst (store w s e force)) = False \<longleftrightarrow>
     (\<exists>ce. List.find (byRef (keyOf w s e)) (m_entries (cache w)) = Some ce \<and> entry ce = e \<and> \<not> force)"
proof (cases "List.find (byRef (keyOf w s e)) (m_entries (cache w))")
  case None
  then show ?thesis
    by (cases "txn_get0 (name (heap w e)) (storages w s)")
       (simp_all add: store_miss_new store_miss_stored Let_def)
next
  case (Some ce)
  show ?thesis
  proof (cases "entry ce = e \<and> \<not> force")
    case True
    then show ?thesis using store_noop[OF Some, of force] Some by simp
  next
    case False
    then show ?thesis using store_hit[OF Some False] Some by (auto simp: Let_def)
  qed
qed

lemma store_noop_frame:
  assumes "\<not> updated (fst (store w s e force))"
  shows "storages (snd (store w s e force)) = storages w \<and> heap (snd (store w s e force)) = heap w"
proof -
  from assms obtain ce where ce: "List.find (byRef (keyOf w s e)) (m_entries (cache w)) = Some ce"
    "entry ce = e" "\<not> force"
    using store_updated_iff[of w s e force] by auto
  show ?thesis using store_noop[OF ce] by simp
qed

lemma insert_cache_nonempty: "0 < m_limit c \<Longrightarrow> m_entries (insert_cache x c) \<noteq> []"
  by (cases "m_entries c") (auto simp: insert_cache_def relocate_front_def split: option.splits)

lemma update_front_entry:
  "xs \<noteq> [] \<Longrightarrow> update_front (\<lambda>x. x\<lparr>entry := e\<rparr>) xs \<noteq> [] \<and> entry (hd (update_front (\<lambda>x. x\<lparr>entry := e\<rparr>) xs)) = e"
  by (cases xs) (simp_all add: update_front_def)

lemma store_write:
  assumes u: "updated (fst (store w s e force))" and valid: "e < nextAddr w"
  shows "heap (snd (store w s e force)) e = mergedEntry w s e
     \<and> txn_get0 (name (heap w e)) (storages (snd (store w s e force)) s)
         = Some (res_id (fst (store w s e force)), mergedEntry w s e)
     \<and> res_id (fst (store w s e force)) \<noteq> 0
     \<and> (0 < m_limit (cache w) \<longrightarrow>
          m_entries (cache (snd (store w s e force))) \<noteq> []
          \<and> entry (hd (m_entries (cache (snd (store w s e force))))) = e)"
proof (cases "List.find (byRef (keyOf w s e)) (m_entries (cache w))")
  case None
  note miss = None
  show ?thesis
  proof (cases "txn_get0 (name (heap w e)) (storages w s)")
    case None
    have m: "mergedEntry w s e = heap w e"
      using miss None by (simp add: mergedEntry_def previousEntry_def)
    show ?thesis
      unfolding store_miss_new[OF miss None] m
      using txn_get0_put[of "heap w e" 0 "storages w s"]
      by (simp add: Let_def txn_put_nonzero insert_cache_nonempty update_front_entry)
  next
    case (Some row)
    have m: "mergedEntry w s e = snd (addDepsAndProvidesFromOtherPackage (heap w e) (snd row))"
      using miss Some by (simp add: mergedEntry_def previousEntry_def)
    have ne: "e \<noteq> nextAddr w" using valid by simp
    show ?thesis
      unfolding store_miss_stored[OF miss Some] m
      using txn_get0_put[of "snd (addDepsAndProvidesFromOtherPackage (heap w e) (snd row))" 0 "storages w s"] ne
      by (simp add: Let_def txn_put_nonzero insert_cache_nonempty update_front_entry)
  qed
next
  case (Some ce)
  have m: "mergedEntry w s e = snd (addDepsAndProvidesFromOtherPackage (heap w e) (heap w (entry ce)))"
    using Some by (simp add: mergedEntry_def previousEntry_def)
  have nn: "\<not> (entry ce = e \<and> \<not> force)"
    using u store_updated_iff[of w s e force] Some by auto
  show ?thesis
    unfolding store_hit[OF Some nn] m
    using txn_get0_put[of "snd (addDepsAndProvidesFromOtherPackage (heap w e) (heap w (entry ce)))" "id_of ce" "storages w s"]
    by (simp add: Let_def txn_put_nonzero)
qed

text \<open>
  Claim C2, as amended. \<^verbatim>\<open>store\<close> returns \<open>updated = false\<close> iff the cache holds an entry
  for the same storage and name whose shared pointer is the given pointer itself and
  \<open>force\<close> is false (the source compares the pointers, not the contents); in that case the
  backing store and the packages are unchanged. In every other case, for a live entry, the
  entry becomes the merge with the previous entry (the cached one, else the stored one, if
  any), it is written to the table under the reported non-zero id, and the cache entry that
  \<^verbatim>\<open>find\<close> or \<^verbatim>\<open>insert\<close> yielded holds the pointer.
\<close>

theorem store_skips_only_same_pointer:
  "(updated (fst (store w s e force)) = False \<longleftrightarrow>
      (\<exists>ce. List.find (byRef (keyOf w s e)) (m_entries (cache w)) = Some ce \<and> entry ce = e \<and> \<not> force))
   \<and> (\<not> updated (fst (store w s e force)) \<longrightarrow>
        storages (snd (store w s e force)) = storages w \<and> heap (snd (store w s e force)) = heap w)
   \<and> (updated (fst (store w s e force)) \<and> e < nextAddr w \<longrightarrow>
        heap (snd (store w s e force)) e = mergedEntry w s e
        \<and> txn_get0 (name (heap w e)) (storages (snd (store w s e force)) s)
            = Some (res_id (fst (store w s e force)), mergedEntry w s e)
        \<and> res_id (fst (store w s e force)) \<noteq> 0
        \<and> (0 < m_limit (cache w) \<longrightarrow>
             m_entries (cache (snd (store w s e force))) \<noteq> []
             \<and> entry (hd (m_entries (cache (snd (store w s e force))))) = e))"
  using store_updated_iff[of w s e force] store_noop_frame[of w s e force] store_write[of w s e force]
  by blast

theorem store_byte_identical_counterexample:
  "List.find (byRef (keyOf world1 0 2)) (m_entries (cache world1)) = Some (cacheEntry0 0 ''foo'' 1 0)
   \<and> heap world1 (entry (cacheEntry0 0 ''foo'' 1 0)) = heap world1 2
   \<and> updated (fst (store world1 0 2 False))"
  by (simp add: world1_def world0_def keyOf_def store_def find_cache_def byRef_def cacheEntry0_def pkg_def Let_def)

theorem store_skips_only_same_pointer_witness:
  "\<not> updated (fst (store world0 0 0 False))
   \<and> storages (snd (store world0 0 0 False)) = storages world0
   \<and> updated (fst (store world1 0 2 True)) \<and> (2::nat) < nextAddr world1 \<and> 0 < m_limit (cache world1)
   \<and> heap (snd (store world1 0 2 True)) 2 = pkg ''foo'' ''1'' []
   \<and> txn_get0 ''foo'' (storages (snd (store world1 0 2 True)) 0) = Some (1, pkg ''foo'' ''1'' [])
   \<and> entry (hd (m_entries (cache (snd (store world1 0 2 True))))) = 2"
proof -
  have a: "\<not> updated (fst (store world0 0 0 False))"
    by (simp add: world0_def store_def find_cache_def byRef_def cacheEntry0_def pkg_def Let_def)
  have b: "updated (fst (store world1 0 2 True)) \<and> (2::nat) < nextAddr world1 \<and> 0 < m_limit (cache world1)"
    by (simp add: world1_def world0_def store_def find_cache_def byRef_def cacheEntry0_def pkg_def Let_def)
  have c: "mergedEntry world1 0 2 = pkg ''foo'' ''1'' [] \<and> name (heap world1 2) = ''foo''
           \<and> res_id (fst (store world1 0 2 True)) = 1"
    by (simp add: mergedEntry_def previousEntry_def keyOf_def world1_def world0_def byRef_def cacheEntry0_def
        pkg_def addDepsAndProvidesFromOtherPackage_def sameIdentity_def store_def find_cache_def Let_def txn_put_def)
  from store_skips_only_same_pointer[of world0 0 0 False] store_skips_only_same_pointer[of world1 0 2 True] a b c
  show ?thesis by simp
qed

subsection \<open>Coherence of the cache and the tables\<close>

text \<open>The hypotheses of the round trip above hold in every coherent world, and coherence is
  kept by \<^verbatim>\<open>store\<close>, \<^verbatim>\<open>retrieve\<close> and \<^verbatim>\<open>invalidate\<close>; a world with an empty cache and
  empty tables is coherent.\<close>

lemma fold_max_ge: "(a::nat) \<le> fold max xs a"
  by (induction xs arbitrary: a) (auto intro: order_trans[OF max.cobounded2])

lemma fold_max_mem: "(x::nat) \<in> set xs \<Longrightarrow> x \<le> fold max xs a"
proof (induction xs arbitrary: a)
  case Nil
  then show ?case by simp
next
  case (Cons y ys)
  show ?case
  proof (cases "x = y")
    case True
    have "max y a \<le> fold max ys (max y a)" by (rule fold_max_ge)
    then show ?thesis using True by simp
  next
    case False
    then show ?thesis using Cons by simp
  qed
qed

lemma getMaxID_ge: "row \<in> set rows \<Longrightarrow> fst row \<le> getMaxID rows"
  by (simp add: getMaxID_def fold_max_mem)

lemma backedD:
  "backed rows c \<Longrightarrow> id_of c \<noteq> 0 \<and> (\<exists>p. (id_of c, p) \<in> set rows \<and> name p = entryName (ref c))"
  by (force simp: backed_def list_ex_iff)

lemma backedI:
  "id_of c \<noteq> 0 \<Longrightarrow> (id_of c, p) \<in> set rows \<Longrightarrow> name p = entryName (ref c) \<Longrightarrow> backed rows c"
  by (force simp: backed_def list_ex_iff)

lemma rows_ok_same_id:
  "rows_ok rows \<Longrightarrow> (i, p) \<in> set rows \<Longrightarrow> (i, q) \<in> set rows \<Longrightarrow> p = q"
  by (auto simp: rows_ok_def dest: eq_key_imp_eq_value)

lemma rows_ok_same_name:
  assumes "rows_ok rows" "(i, p) \<in> set rows" "(j, q) \<in> set rows" "name p = name q"
  shows "i = j \<and> p = q"
proof -
  have "inj_on (\<lambda>row. name (snd row)) (set rows)"
    using assms(1) by (simp add: rows_ok_def distinct_map)
  then have "(i, p) = (j, q)" using assms(2-4) by (intro inj_onD[where f = "\<lambda>row. name (snd row)"]) simp_all
  then show ?thesis by simp
qed

lemma coherent_cache_ids_ok: "coherent w \<Longrightarrow> cache_ids_ok w"
proof -
  assume c: "coherent w"
  have "id_of c \<noteq> 0 \<and> id_of c \<le> getMaxID (storages w (relatedStorage (ref c)))"
    if "c \<in> set (m_entries (cache w))" for c
  proof -
    from c that have "backed (storages w (relatedStorage (ref c))) c"
      by (simp add: coherent_def list_all_iff)
    from backedD[OF this] obtain p where "id_of c \<noteq> 0" "(id_of c, p) \<in> set (storages w (relatedStorage (ref c)))"
      by blast
    then show ?thesis using getMaxID_ge[of "(id_of c, p)"] by simp
  qed
  then show ?thesis by (simp add: cache_ids_ok_def list_all_iff)
qed

lemma coherent_unique_names: "coherent w \<Longrightarrow> unique_names (storages w s)"
  by (simp add: coherent_def rows_ok_def unique_names_def)

lemma set_txn_put:
  "set (snd (txn_put p i rows)) =
     insert (fst (txn_put p i rows), p)
       {row \<in> set rows. fst row \<noteq> fst (txn_put p i rows) \<and> name (snd row) \<noteq> name p}"
  by (auto simp: txn_put_def Let_def)

lemma rows_ok_txn_put: "rows_ok rows \<Longrightarrow> rows_ok (snd (txn_put p i rows))"
  by (auto simp: rows_ok_def txn_put_def Let_def distinct_map_filter)

lemma rows_ok_txn_del: "rows_ok rows \<Longrightarrow> rows_ok (txn_del i rows)"
  by (auto simp: rows_ok_def txn_del_def distinct_map_filter)

lemma set_relocate_front: "x \<in> set xs \<Longrightarrow> set (relocate_front x xs) = set xs"
proof
  assume x: "x \<in> set xs"
  show "set (relocate_front x xs) \<subseteq> set xs"
    using x set_remove1_subset[of x xs] by (auto simp: relocate_front_def)
  show "set xs \<subseteq> set (relocate_front x xs)"
  proof
    fix y assume "y \<in> set xs"
    then show "y \<in> set (relocate_front x xs)"
      by (cases "y = x") (simp_all add: relocate_front_def in_set_remove1)
  qed
qed

lemma set_insert_cache: "set (m_entries (insert_cache x c)) \<subseteq> insert x (set (m_entries c))"
proof (cases "clash x (m_entries c)")
  case None
  then show ?thesis
    by (auto simp: insert_cache_def dest: in_set_butlastD)
next
  case (Some i)
  then have "i \<in> set (m_entries c)"
    by (auto simp: clash_def find_Some_iff split: option.splits)
  then show ?thesis using Some by (auto simp: insert_cache_def set_relocate_front)
qed

lemma list_all_update_front:
  "list_all P xs \<Longrightarrow> (\<And>x. P x \<Longrightarrow> P (f x)) \<Longrightarrow> list_all P (update_front f xs)"
  by (cases xs) (simp_all add: update_front_def)

lemma backed_entry_update: "backed rows (c\<lparr>entry := e\<rparr>) = backed rows c"
  by (simp add: backed_def)

text \<open>A put for the key of a cached or new entry keeps the other entries of the storage
  backed.\<close>

lemma backed_after_put:
  assumes c: "backed rows c"
    and same: "entryName (ref c) = name p \<longleftrightarrow> id_of c = fst (txn_put p i rows)"
  shows "backed (snd (txn_put p i rows)) c"
proof -
  from backedD[OF c] obtain q where q: "id_of c \<noteq> 0" "(id_of c, q) \<in> set rows" "name q = entryName (ref c)"
    by blast
  show ?thesis
  proof (cases "entryName (ref c) = name p")
    case False
    then have "(id_of c, q) \<in> set (snd (txn_put p i rows))"
      using q same by (simp add: set_txn_put)
    then show ?thesis using q by (intro backedI)
  next
    case True
    then have "(id_of c, p) \<in> set (snd (txn_put p i rows))"
      using same by (simp add: set_txn_put)
    then show ?thesis using q(1) True by (intro backedI) simp_all
  qed
qed

lemma backed_cong: "ref c = ref c' \<Longrightarrow> id_of c = id_of c' \<Longrightarrow> backed rows c = backed rows c'"
  by (simp add: backed_def)

lemma coherent_after_put:
  assumes coh: "coherent w"
    and st: "storages w' = (storages w)(s := snd (txn_put p i (storages w s)))"
    and es: "\<And>c. c \<in> set (m_entries (cache w')) \<Longrightarrow>
        (\<exists>c0 \<in> set (m_entries (cache w)). ref c = ref c0 \<and> id_of c = id_of c0
            \<and> (relatedStorage (ref c) = s \<longrightarrow>
                 (entryName (ref c) = name p \<longleftrightarrow> id_of c = fst (txn_put p i (storages w s)))))
        \<or> (relatedStorage (ref c) = s \<and> entryName (ref c) = name p
            \<and> id_of c = fst (txn_put p i (storages w s)))"
  shows "coherent w'"
proof -
  have rows: "rows_ok (storages w' s')" for s'
    using coh by (simp add: st coherent_def rows_ok_txn_put)
  have "backed (storages w' (relatedStorage (ref c))) c" if c: "c \<in> set (m_entries (cache w'))" for c
  proof -
    from es[OF c] show ?thesis
    proof (elim disjE bexE conjE)
      fix c0 assume c0: "c0 \<in> set (m_entries (cache w))" "ref c = ref c0" "id_of c = id_of c0"
        and same: "relatedStorage (ref c) = s \<longrightarrow>
                 (entryName (ref c) = name p \<longleftrightarrow> id_of c = fst (txn_put p i (storages w s)))"
      have b0: "backed (storages w (relatedStorage (ref c))) c"
        using coh c0 backed_cong[OF c0(2,3)] by (simp add: coherent_def list_all_iff)
      show ?thesis
      proof (cases "relatedStorage (ref c) = s")
        case True
        then show ?thesis using backed_after_put[of "storages w s" c p i] b0 same by (simp add: st)
      next
        case False
        then show ?thesis using b0 by (simp add: st)
      qed
    next
      assume n: "relatedStorage (ref c) = s" "entryName (ref c) = name p"
        "id_of c = fst (txn_put p i (storages w s))"
      have "(id_of c, p) \<in> set (snd (txn_put p i (storages w s)))"
        using n(3) by (simp add: set_txn_put)
      then have "backed (snd (txn_put p i (storages w s))) c"
        using n by (intro backedI) (simp_all add: txn_put_nonzero)
      then show ?thesis using n(1) by (simp add: st)
    qed
  qed
  then show ?thesis using rows by (simp add: coherent_def list_all_iff)
qed

lemma ref_neqD:
  "ref c \<noteq> \<lparr>relatedStorage = s, entryName = n\<rparr> \<Longrightarrow> relatedStorage (ref c) = s \<Longrightarrow> entryName (ref c) \<noteq> n"
  by (cases "ref c") auto

lemma update_front_entry_mem:
  "c \<in> set (update_front (\<lambda>x. x\<lparr>entry := e\<rparr>) xs) \<Longrightarrow> \<exists>c1 \<in> set xs. ref c = ref c1 \<and> id_of c = id_of c1"
  by (cases xs) (auto simp: update_front_def)

lemma txn_get0_SomeD:
  "txn_get0 n rows = Some row \<Longrightarrow> row \<in> set rows \<and> name (snd row) = n \<and> fst row \<noteq> 0"
proof -
  assume "txn_get0 n rows = Some row"
  then have f: "List.find (\<lambda>row. name (snd row) = n) rows = Some row" and nz: "fst row \<noteq> 0"
    by (auto simp: txn_get0_def txn_find0_def split: option.splits if_splits)
  from f obtain i where "i < length rows" "rows ! i = row" "name (snd row) = n"
    by (auto simp: find_Some_iff)
  then show ?thesis using nz nth_mem[of i rows] by auto
qed

lemma coherent_store:
  assumes coh: "coherent w"
  shows "coherent (snd (store w s e force))"
proof (cases "List.find (byRef (keyOf w s e)) (m_entries (cache w))")
  case None
  note miss = None
  have notkey: "ref c \<noteq> keyOf w s e" if "c \<in> set (m_entries (cache w))" for c
    using miss that by (rule find_byRef_None)
  have old: "\<exists>c0 \<in> set (m_entries (cache w)). ref c = ref c0 \<and> id_of c = id_of c0
            \<and> (relatedStorage (ref c) = s \<longrightarrow>
                 (entryName (ref c) = name p \<longleftrightarrow> id_of c = fst (txn_put p 0 (storages w s))))"
    if c: "c \<in> set (m_entries (cache w))" and p: "name p = name (heap w e)" for c p
  proof -
    have "relatedStorage (ref c) = s \<Longrightarrow> entryName (ref c) \<noteq> name p"
      using notkey[OF c] p by (auto simp: keyOf_def dest: ref_neqD)
    moreover have "relatedStorage (ref c) = s \<Longrightarrow> id_of c \<noteq> fst (txn_put p 0 (storages w s))"
      using coherent_cache_ids_ok[OF coh] c by (auto simp: cache_ids_ok_def list_all_iff txn_put_id)
    ultimately show ?thesis using c by blast
  qed
  have step: "coherent w'"
    if st: "storages w' = (storages w)(s := snd (txn_put p 0 (storages w s)))"
      and p: "name p = name (heap w e)"
      and ca: "m_entries (cache w') = update_front (\<lambda>x. x\<lparr>entry := e\<rparr>)
          (m_entries (insert_cache \<lparr>ref = keyOf w s e, id_of = fst (txn_put p 0 (storages w s)), entry = e\<rparr> (cache w)))"
    for w' p
  proof (rule coherent_after_put[OF coh st])
    fix c assume "c \<in> set (m_entries (cache w'))"
    then obtain c1 where c1: "c1 \<in> set (m_entries (insert_cache \<lparr>ref = keyOf w s e, id_of = fst (txn_put p 0 (storages w s)), entry = e\<rparr> (cache w)))"
        "ref c = ref c1" "id_of c = id_of c1"
      unfolding ca by (blast dest: update_front_entry_mem)
    from c1(1) set_insert_cache
    have "c1 = \<lparr>ref = keyOf w s e, id_of = fst (txn_put p 0 (storages w s)), entry = e\<rparr> \<or> c1 \<in> set (m_entries (cache w))"
      by blast
    then show "(\<exists>c0 \<in> set (m_entries (cache w)). ref c = ref c0 \<and> id_of c = id_of c0
            \<and> (relatedStorage (ref c) = s \<longrightarrow>
                 (entryName (ref c) = name p \<longleftrightarrow> id_of c = fst (txn_put p 0 (storages w s)))))
        \<or> (relatedStorage (ref c) = s \<and> entryName (ref c) = name p
            \<and> id_of c = fst (txn_put p 0 (storages w s)))"
    proof
      assume "c1 = \<lparr>ref = keyOf w s e, id_of = fst (txn_put p 0 (storages w s)), entry = e\<rparr>"
      then show ?thesis using c1(2,3) p by (simp add: keyOf_def)
    next
      assume "c1 \<in> set (m_entries (cache w))"
      from old[OF this p] c1(2,3) show ?thesis by auto
    qed
  qed
  show ?thesis
  proof (cases "txn_get0 (name (heap w e)) (storages w s)")
    case None
    show ?thesis
      unfolding store_miss_new[OF miss None]
      by (rule step[where p = "heap w e"]) (simp_all add: Let_def)
  next
    case (Some row)
    have nm: "name (snd row) = name (heap w e)"
      using Some by (auto simp: txn_get0_def txn_find0_def find_Some_iff split: option.splits if_splits)
    show ?thesis
      unfolding store_miss_stored[OF miss Some]
      by (rule step[where p = "snd (addDepsAndProvidesFromOtherPackage (((heap w)(nextAddr w := snd row)) e) (snd row))"])
         (simp_all add: Let_def nm)
  qed
next
  case (Some ce)
  then have mem: "ce \<in> set (m_entries (cache w))" and r: "ref ce = keyOf w s e"
    by (auto simp: find_Some_iff byRef_def)
  have bce: "backed (storages w s) ce"
    using coh mem r by (auto simp: coherent_def list_all_iff keyOf_def)
  show ?thesis
  proof (cases "entry ce = e \<and> \<not> force")
    case True
    then show ?thesis
      using store_noop[OF Some, of force] coh mem set_relocate_front[OF mem]
      by (simp add: coherent_def list_all_iff relocate_front_def)
  next
    case False
    let ?p = "snd (addDepsAndProvidesFromOtherPackage (heap w e) (heap w (entry ce)))"
    from backedD[OF bce] obtain q where q: "id_of ce \<noteq> 0" "(id_of ce, q) \<in> set (storages w s)"
      "name q = entryName (ref ce)" by blast
    have j: "fst (txn_put ?p (id_of ce) (storages w s)) = id_of ce"
      using q(1) by (simp add: txn_put_id)
    have rok: "rows_ok (storages w s)" using coh by (simp add: coherent_def)
    show ?thesis
      unfolding store_hit[OF Some False]
    proof (simp only: Let_def snd_conv, rule coherent_after_put[OF coh, where p = ?p and i = "id_of ce" and s = s])
      show "storages (w\<lparr>heap := (heap w)(e := ?p),
              cache := (cache w)\<lparr>m_entries := ce\<lparr>ref := keyOf w s e, entry := e\<rparr> # remove1 ce (m_entries (cache w))\<rparr>,
              storages := (storages w)(s := snd (txn_put (((heap w)(e := ?p)) e) (id_of ce) (storages w s)))\<rparr>)
            = (storages w)(s := snd (txn_put ?p (id_of ce) (storages w s)))"
        by simp
    next
      fix c
      assume "c \<in> set (m_entries (cache (w\<lparr>heap := (heap w)(e := ?p),
              cache := (cache w)\<lparr>m_entries := ce\<lparr>ref := keyOf w s e, entry := e\<rparr> # remove1 ce (m_entries (cache w))\<rparr>,
              storages := (storages w)(s := snd (txn_put (((heap w)(e := ?p)) e) (id_of ce) (storages w s)))\<rparr>)))"
      then have "c = ce\<lparr>ref := keyOf w s e, entry := e\<rparr> \<or> c \<in> set (m_entries (cache w))"
        using set_remove1_subset[of ce "m_entries (cache w)"] by auto
      then show "(\<exists>c0 \<in> set (m_entries (cache w)). ref c = ref c0 \<and> id_of c = id_of c0
            \<and> (relatedStorage (ref c) = s \<longrightarrow>
                 (entryName (ref c) = name ?p \<longleftrightarrow> id_of c = fst (txn_put ?p (id_of ce) (storages w s)))))
        \<or> (relatedStorage (ref c) = s \<and> entryName (ref c) = name ?p
            \<and> id_of c = fst (txn_put ?p (id_of ce) (storages w s)))"
      proof
        assume "c = ce\<lparr>ref := keyOf w s e, entry := e\<rparr>"
        then show ?thesis by (simp add: j keyOf_def)
      next
        assume c: "c \<in> set (m_entries (cache w))"
        have "entryName (ref c) = name ?p \<longleftrightarrow> id_of c = id_of ce" if s: "relatedStorage (ref c) = s"
        proof -
          have "backed (storages w s) c" using coh c s by (auto simp: coherent_def list_all_iff)
          from backedD[OF this] obtain p' where p': "(id_of c, p') \<in> set (storages w s)"
            "name p' = entryName (ref c)" by blast
          have nq: "name q = name ?p" using q(3) r by (simp add: keyOf_def)
          show ?thesis
          proof
            assume "entryName (ref c) = name ?p"
            then have "name p' = name q" using p'(2) nq by simp
            from rows_ok_same_name[OF rok p'(1) q(2) this] show "id_of c = id_of ce" by simp
          next
            assume "id_of c = id_of ce"
            then have "p' = q" using rows_ok_same_id[OF rok _ q(2), of p'] p'(1) by simp
            then show "entryName (ref c) = name ?p" using p'(2) nq by simp
          qed
        qed
        then show ?thesis using c j by auto
      qed
    qed
  qed
qed

lemma coherent_retrieve:
  assumes coh: "coherent w"
  shows "coherent (snd (retrieve w s n))"
proof (cases "List.find (byRef \<lparr>relatedStorage = s, entryName = n\<rparr>) (m_entries (cache w))")
  case (Some x)
  then have mem: "x \<in> set (m_entries (cache w))" by (auto simp: find_Some_iff)
  show ?thesis
    using coh set_relocate_front[OF mem] Some
    by (simp add: retrieve_def Let_def find_cache_Some coherent_def list_all_iff relocate_front_def)
next
  case None
  show ?thesis
  proof (cases "txn_get0 n (storages w s)")
    case None
    then show ?thesis using coh \<open>List.find _ _ = None\<close>
      by (simp add: retrieve_def Let_def find_cache_None coherent_def)
  next
    case (Some row)
    then have row: "row \<in> set (storages w s)" "name (snd row) = n" "fst row \<noteq> 0"
      by (auto dest: txn_get0_SomeD)
    let ?x = "\<lparr>ref = \<lparr>relatedStorage = s, entryName = n\<rparr>, id_of = fst row, entry = nextAddr w\<rparr>"
    have bx: "backed (storages w (relatedStorage (ref ?x))) ?x"
      using row by (intro backedI[where p = "snd row"]) simp_all
    have "list_all (\<lambda>c. backed (storages w (relatedStorage (ref c))) c) (m_entries (insert_cache ?x (cache w)))"
      using coh bx set_insert_cache[of ?x "cache w"] by (auto simp: coherent_def list_all_iff)
    then show ?thesis using coh Some \<open>List.find _ _ = None\<close>
      by (simp add: retrieve_def Let_def find_cache_None coherent_def)
  qed
qed

lemma coherent_invalidate:
  assumes coh: "coherent w"
  shows "coherent (snd (invalidate w s n))"
proof (cases "txn_find0 n (storages w s)")
  case None
  then show ?thesis using coh
    by (auto simp: invalidate_def Let_def erase_cache_def coherent_def list_all_iff)
next
  case (Some row)
  then have row: "row \<in> set (storages w s)" "name (snd row) = n"
    by (auto simp: txn_find0_def find_Some_iff)
  have rok: "rows_ok (storages w s)" using coh by (simp add: coherent_def)
  have rows: "rows_ok (((storages w)(s := txn_del (fst row) (storages w s))) s')" for s'
    using coh by (simp add: coherent_def rows_ok_txn_del)
  have "backed (((storages w)(s := txn_del (fst row) (storages w s))) (relatedStorage (ref c))) c"
    if c: "c \<in> set (m_entries (cache w))" and nr: "\<not> byRef \<lparr>relatedStorage = s, entryName = n\<rparr> c" for c
  proof (cases "relatedStorage (ref c) = s")
    case False
    then show ?thesis using coh c by (simp add: coherent_def list_all_iff)
  next
    case True
    have "backed (storages w s) c" using coh c True by (auto simp: coherent_def list_all_iff)
    from backedD[OF this] obtain p' where p': "id_of c \<noteq> 0" "(id_of c, p') \<in> set (storages w s)"
      "name p' = entryName (ref c)" by blast
    have "entryName (ref c) \<noteq> n" using nr True by (auto simp: byRef_def dest: ref_neqD)
    then have "id_of c \<noteq> fst row"
      using rows_ok_same_id[OF rok p'(2), of "snd row"] row p'(3) by auto
    then have "(id_of c, p') \<in> set (txn_del (fst row) (storages w s))"
      using p'(2) by (simp add: txn_del_def)
    then show ?thesis using True p' by (simp add: backedI)
  qed
  then show ?thesis using Some rows
    by (simp add: invalidate_def Let_def erase_cache_def coherent_def list_all_iff)
qed

lemma coherent_run:
  "coherent w \<Longrightarrow> list_all (\<lambda>op. case op of OpInsert x \<Rightarrow> False | _ \<Rightarrow> True) ops \<Longrightarrow> coherent (run_ops w ops)"
  unfolding run_ops_def
proof (induction ops arbitrary: w)
  case Nil
  then show ?case by simp
next
  case (Cons op ops)
  then have "coherent (apply_op w op)"
    by (cases op) (simp_all add: coherent_store coherent_retrieve coherent_invalidate)
  then show ?case using Cons by simp
qed

lemma coherent_initial: "m_entries (cache w) = [] \<Longrightarrow> (\<forall>s. storages w s = []) \<Longrightarrow> coherent w"
  by (simp add: coherent_def rows_ok_def)

subsection \<open>MovePackages: both child processes decide\<close>

lemma removeFromSourceRepo_keeps:
  "removeFromSourceRepo locs f res = (locs', f', res') \<Longrightarrow>
   set (processedPackages res) \<subseteq> set (processedPackages res') \<union> fst ` set (failedPackages res')
   \<and> fst ` set (failedPackages res) \<subseteq> fst ` set (failedPackages res')
   \<and> errorMessage res' = errorMessage res"
proof (induction locs f res arbitrary: locs' f' res' rule: removeFromSourceRepo.induct)
  case (1 f res)
  then show ?case by simp
next
  case (2 packageName packageLocation ok rest f res)
  show ?case
  proof (cases ok)
    case False
    obtain l2 f2 r2 where rec: "removeFromSourceRepo rest f res = (l2, f2, r2)"
      by (cases "removeFromSourceRepo rest f res") auto
    have r2: "res' = r2" using "2.prems" False rec by simp
    from "2.IH"(1)[OF _ rec] False show ?thesis unfolding r2 by simp
  next
    case True
    show ?thesis
    proof (cases "remove_file f (pathWithinRepo packageLocation)")
      case (Inr f1)
      obtain l2 f2 r2 where rec: "removeFromSourceRepo rest f1 res = (l2, f2, r2)"
        by (cases "removeFromSourceRepo rest f1 res") auto
      have r2: "res' = r2" using "2.prems" True Inr rec by simp
      from "2.IH"(3)[OF _ Inr rec] True show ?thesis unfolding r2 by simp
    next
      case (Inl e)
      let ?res = "res\<lparr>failedPackages := failedPackages res
                                @ [(packageName, ''unable to remove from source repo: '' @ what e)],
                             processedPackages := removeAll packageName (processedPackages res)\<rparr>"
      obtain l2 f2 r2 where rec: "removeFromSourceRepo rest f ?res = (l2, f2, r2)"
        by (cases "removeFromSourceRepo rest f ?res") auto
      have r2: "res' = r2" using "2.prems" True Inl rec by simp
      from "2.IH"(2)[OF _ Inl rec] True
      have ih: "set (processedPackages ?res) \<subseteq> set (processedPackages r2) \<union> fst ` set (failedPackages r2)
        \<and> fst ` set (failedPackages ?res) \<subseteq> fst ` set (failedPackages r2)
        \<and> errorMessage r2 = errorMessage ?res" by simp
      show ?thesis unfolding r2 using ih by auto
    qed
  qed
qed

lemma handleRepoRemoveResult_props:
  "(processFailed r \<longrightarrow> errorMessage (m_result (handleRepoRemoveResult r a)) \<noteq> [])
   \<and> (\<not> processFailed r \<longrightarrow> errorMessage (m_result (handleRepoRemoveResult r a)) = errorMessage (m_result a))
   \<and> m_addErrorMessage (handleRepoRemoveResult r a) = m_addErrorMessage a
   \<and> set (processedPackages (m_result a))
        \<subseteq> set (processedPackages (m_result (handleRepoRemoveResult r a)))
          \<union> fst ` set (failedPackages (m_result (handleRepoRemoveResult r a)))
   \<and> fst ` set (failedPackages (m_result a)) \<subseteq> fst ` set (failedPackages (m_result (handleRepoRemoveResult r a)))"
proof (cases "processFailed r")
  case True
  then show ?thesis by (auto simp: handleRepoRemoveResult_def processFailed_def)
next
  case False
  obtain l2 f2 r2 where rec: "removeFromSourceRepo (m_packageLocations a) (fs a) (m_result a) = (l2, f2, r2)"
    by (cases "removeFromSourceRepo (m_packageLocations a) (fs a) (m_result a)") auto
  from removeFromSourceRepo_keeps[OF rec] False rec
  show ?thesis by (simp add: handleRepoRemoveResult_def processFailed_def)
qed

lemma handleRepoAddResult_props:
  "(processFailed r \<longrightarrow> m_addErrorMessage (handleRepoAddResult r a) \<noteq> [])
   \<and> (\<not> processFailed r \<longrightarrow> m_addErrorMessage (handleRepoAddResult r a) = m_addErrorMessage a)
   \<and> m_result (handleRepoAddResult r a) = m_result a"
  by (auto simp: handleRepoAddResult_def processFailed_def)

lemma conclude_move_failure:
  assumes "errorMessage (m_result a) \<noteq> [] \<or> m_addErrorMessage a \<noteq> []"
  shows "snd (conclude_move a) = Failure
     \<and> processedPackages (m_result (fst (conclude_move a))) = []
     \<and> set (processedPackages (m_result a)) \<union> fst ` set (failedPackages (m_result a))
         \<subseteq> fst ` set (failedPackages (m_result (fst (conclude_move a))))"
proof -
  have "fst ` (\<lambda>processedPackage. (processedPackage, r)) ` set xs = set xs" for r :: string and xs :: "string list"
    by (auto simp: image_image)
  note img = this
  show ?thesis
  proof (cases "m_addErrorMessage a = []")
    case True
    then have "errorMessage (m_result a) \<noteq> []" using assms by simp
    then show ?thesis using True by (simp add: conclude_move_def Let_def image_Un img)
  next
    case False
    then show ?thesis
      by (cases "errorMessage (m_result a) = []") (simp_all add: conclude_move_def Let_def image_Un img)
  qed
qed

text \<open>
  Claim C7. In MovePackages, whichever of the two child processes finishes first: if repo-add
  or repo-remove failed (spawn error or non-zero exit code), the action ends with
  \<open>Failure\<close>, \<^verbatim>\<open>processedPackages\<close> is empty and every package that had been copied (the
  content of \<^verbatim>\<open>processedPackages\<close> before the processes were handled) is listed in
  \<^verbatim>\<open>failedPackages\<close>. Hence a package is reported in \<^verbatim>\<open>processedPackages\<close> only if both
  processes succeeded.
\<close>

theorem move_packages_all_or_nothing:
  "(processFailed addResult \<or> processFailed removeResult \<longrightarrow>
      snd (finishMove addFirst addResult removeResult a) = Failure
      \<and> processedPackages (m_result (fst (finishMove addFirst addResult removeResult a))) = []
      \<and> set (processedPackages (m_result a))
          \<subseteq> fst ` set (failedPackages (m_result (fst (finishMove addFirst addResult removeResult a)))))
   \<and> (p \<in> set (processedPackages (m_result (fst (finishMove addFirst addResult removeResult a)))) \<longrightarrow>
        \<not> processFailed addResult \<and> \<not> processFailed removeResult)"
proof -
  let ?ar = "handleRepoRemoveResult removeResult (handleRepoAddResult addResult a)"
  let ?ra = "handleRepoAddResult addResult (handleRepoRemoveResult removeResult a)"
  have main: "processFailed addResult \<or> processFailed removeResult \<Longrightarrow>
      snd (finishMove addFirst addResult removeResult a) = Failure
      \<and> processedPackages (m_result (fst (finishMove addFirst addResult removeResult a))) = []
      \<and> set (processedPackages (m_result a))
          \<subseteq> fst ` set (failedPackages (m_result (fst (finishMove addFirst addResult removeResult a))))"
  proof -
    assume f: "processFailed addResult \<or> processFailed removeResult"
    have e1: "errorMessage (m_result ?ar) \<noteq> [] \<or> m_addErrorMessage ?ar \<noteq> []"
      using f handleRepoRemoveResult_props[of removeResult "handleRepoAddResult addResult a"]
        handleRepoAddResult_props[of addResult a] by auto
    have e2: "errorMessage (m_result ?ra) \<noteq> [] \<or> m_addErrorMessage ?ra \<noteq> []"
      using f handleRepoRemoveResult_props[of removeResult a]
        handleRepoAddResult_props[of addResult "handleRepoRemoveResult removeResult a"] by auto
    have s1: "set (processedPackages (m_result a))
        \<subseteq> set (processedPackages (m_result ?ar)) \<union> fst ` set (failedPackages (m_result ?ar))"
      using handleRepoRemoveResult_props[of removeResult "handleRepoAddResult addResult a"]
        handleRepoAddResult_props[of addResult a] by simp
    have s2: "set (processedPackages (m_result a))
        \<subseteq> set (processedPackages (m_result ?ra)) \<union> fst ` set (failedPackages (m_result ?ra))"
      using handleRepoRemoveResult_props[of removeResult a]
        handleRepoAddResult_props[of addResult "handleRepoRemoveResult removeResult a"] by simp
    have c1: "snd (conclude_move ?ar) = Failure \<and> processedPackages (m_result (fst (conclude_move ?ar))) = []
        \<and> set (processedPackages (m_result a)) \<subseteq> fst ` set (failedPackages (m_result (fst (conclude_move ?ar))))"
      using conclude_move_failure[OF e1] s1 by (meson Un_least dual_order.trans le_sup_iff subset_refl)
    have c2: "snd (conclude_move ?ra) = Failure \<and> processedPackages (m_result (fst (conclude_move ?ra))) = []
        \<and> set (processedPackages (m_result a)) \<subseteq> fst ` set (failedPackages (m_result (fst (conclude_move ?ra))))"
      using conclude_move_failure[OF e2] s2 by (meson Un_least dual_order.trans le_sup_iff subset_refl)
    show ?thesis
      using c1 c2 by (cases addFirst) (simp_all add: finishMove_def)
  qed
  have "p \<in> set (processedPackages (m_result (fst (finishMove addFirst addResult removeResult a)))) \<Longrightarrow>
        \<not> processFailed addResult \<and> \<not> processFailed removeResult"
    using main by fastforce
  then show ?thesis using main by blast
qed

theorem move_packages_all_or_nothing_witness:
  "processFailed (exited 1) \<and> \<not> processFailed (exited 0)
   \<and> snd (finishMove True (exited 1) (exited 0) (listProcessedPackages action0)) = Failure
   \<and> processedPackages (m_result (fst (finishMove True (exited 1) (exited 0) (listProcessedPackages action0)))) = []
   \<and> {''a'', ''b''}
        \<subseteq> fst ` set (failedPackages (m_result (fst (finishMove True (exited 1) (exited 0) (listProcessedPackages action0)))))
   \<and> ''a'' \<in> set (processedPackages (m_result (fst (finishMove True (exited 0) (exited 0) (listProcessedPackages action0)))))"
proof -
  have a: "processFailed (exited 1) \<and> \<not> processFailed (exited 0)"
    by (simp add: processFailed_def exited_def)
  have b: "set (processedPackages (m_result (listProcessedPackages action0))) = {''a'', ''b''}"
    by (simp add: listProcessedPackages_def action0_def)
  have c: "''a'' \<in> set (processedPackages (m_result (fst (finishMove True (exited 0) (exited 0) (listProcessedPackages action0)))))"
    by (simp add: finishMove_def handleRepoAddResult_def handleRepoRemoveResult_def conclude_move_def exited_def
        listProcessedPackages_def action0_def fs0_def remove_file_def Let_def)
  from move_packages_all_or_nothing[of "exited 1" "exited 0" True "listProcessedPackages action0" "''a''"]
       move_packages_all_or_nothing[of "exited 0" "exited 0" True "listProcessedPackages action0" "''a''"] a b c
  show ?thesis by simp
qed

subsection \<open>RemovePackages: archiving\<close>

lemma paths:
  "parent_path ''/repo/a.pkg'' = ''/repo''" "filename ''/repo/a.pkg'' = ''a.pkg''"
  "parent_path ''/repo/b.pkg'' = ''/repo''" "filename ''/repo/b.pkg'' = ''b.pkg''"
  by (simp_all add: parent_path_def filename_def)

text \<open>
  Claim C8 does not hold of the source. \<^verbatim>\<open>movePackagesToArchive\<close> leaves the loop body with
  \<^verbatim>\<open>continue\<close> for a package without storage location, before the iterator into
  \<^verbatim>\<open>processedPackages\<close> is advanced. With the packages a (archived successfully, no storage
  location) and b (its file cannot be renamed), the failure of b erases a from
  \<^verbatim>\<open>processedPackages\<close>: b is reported both as processed and as failed, and a, which was
  archived, is reported nowhere.
\<close>

theorem remove_packages_drops_wrong_package:
  "processedPackages (m_result (listProcessedPackages action0)) = [''a'', ''b'']
   \<and> processedPackages (m_result (fst (movePackagesToArchive (listProcessedPackages action0)))) = [''b'']
   \<and> failedPackages (m_result (fst (movePackagesToArchive (listProcessedPackages action0))))
        = [(''b'', ''unable to archive: cannot rename: /repo/b.pkg'')]
   \<and> nodes (fs (fst (movePackagesToArchive (listProcessedPackages action0)))) ''/repo/archive/a.pkg'' = Some RegularFile
   \<and> nodes (fs (fst (movePackagesToArchive (listProcessedPackages action0)))) ''/repo/a.pkg'' = None
   \<and> nodes (fs (fst (movePackagesToArchive (listProcessedPackages action0)))) ''/repo/b.pkg'' = Some RegularFile"
  by (simp add: movePackagesToArchive_def listProcessedPackages_def action0_def fs0_def archivePackage_def
      paths path_append_def create_directory_def rename_def erase_at_def Let_def)

subsection \<open>CleanRepository: dry run\<close>

lemma deleteFiles_dry:
  "deleteFiles True xs f m = (f, m\<lparr>notes := notes m @ map (\<lambda>p. ''Deleted '' @ p) xs\<rparr>)"
  by (induction xs arbitrary: m) simp_all

lemma archiveFiles_dry:
  "archiveFiles True d xs f m =
     (f, m\<lparr>notes := notes m @ map (\<lambda>(p, r). ''Archived '' @ p @ '' (current version: ''
            @ (if r = [] then ''removed'' else r) @ '')'') xs\<rparr>)"
  by (induction xs arbitrary: m) auto

text \<open>
  Claim C6 does not hold of the source. With the DryRun flag set, the deletions and renames are
  skipped (the two lemmas above), but the archive directory of every repository directory is
  still created when it is missing: \<^verbatim>\<open>create_directory\<close> is not guarded by
  \<^verbatim>\<open>m_dryRun\<close>. For a repository directory without an archive directory, the file system
  after the dry run differs from the one before it.
\<close>

theorem clean_repository_dry_run_creates_archive:
  "nodes fsClean ''/repo/x86_64/archive'' = None
   \<and> nodes (fst (cleanRepoDirs True repoDirs0 fsClean noMessages)) ''/repo/x86_64/archive'' = Some Directory
   \<and> snd (cleanRepoDirs True repoDirs0 fsClean noMessages)
       = \<lparr>errors = [], warnings = [],
          notes = [''Archived /repo/x86_64/old-1-1-x86_64.pkg.tar.zst (current version: removed)'']\<rparr>"
  by (simp add: repoDirs0_def fsClean_def noMessages_def is_directory_def create_directory_def path_append_def)

subsection \<open>ReloadLibraryDependencies: parse errors and the result\<close>





subsection \<open>ReloadLibraryDependencies: the write-back phase\<close>

text \<open>Registering a package makes it reachable, whatever the indices held before; so the
  write-back restores the invariant for a package whose merge is applied.\<close>

lemma list_ex_mapI: "x \<in> set xs \<Longrightarrow> P (g x) \<Longrightarrow> list_ex P (map g xs)"
  by (auto simp: list_ex_iff)

lemma depset_add_lists: "depset_lists (depset_add d key ds) (depName d) key"
proof (cases "list_ex (sameConstraint d) (ds (depName d))")
  case True
  then obtain x where x: "x \<in> set (ds (depName d))" "sameConstraint d x"
    by (auto simp: list_ex_iff)
  have "list_ex (\<lambda>x. key \<in> set (relevantPackages x))
          (map (\<lambda>x. if sameConstraint d x \<and> key \<notin> set (relevantPackages x)
                     then x\<lparr>relevantPackages := relevantPackages x @ [key]\<rparr> else x) (ds (depName d)))"
    by (rule list_ex_mapI[OF x(1)]) (simp add: x(2))
  then show ?thesis
    using True by (simp add: depset_lists_def depset_add_def)
next
  case False
  then show ?thesis by (simp add: depset_lists_def depset_add_def)
qed

lemma depset_add_mono:
  assumes "depset_lists ds n key"
  shows "depset_lists (depset_add d k ds) n key"
proof (cases "n = depName d")
  case False
  then show ?thesis using assms by (simp add: depset_lists_def depset_add_def)
next
  case n: True
  from assms obtain x where x: "x \<in> set (ds (depName d))" "key \<in> set (relevantPackages x)"
    unfolding n by (auto simp: depset_lists_def list_ex_iff)
  show ?thesis
  proof (cases "list_ex (sameConstraint d) (ds (depName d))")
    case True
    have "list_ex (\<lambda>x. key \<in> set (relevantPackages x))
          (map (\<lambda>x. if sameConstraint d x \<and> k \<notin> set (relevantPackages x)
                     then x\<lparr>relevantPackages := relevantPackages x @ [k]\<rparr> else x) (ds (depName d)))"
      by (rule list_ex_mapI[OF x(1)]) (simp add: x(2))
    then show ?thesis
      using True n by (simp add: depset_lists_def depset_add_def)
  next
    case False
    have "list_ex (\<lambda>x. key \<in> set (relevantPackages x)) (ds (depName d))"
      using x by (auto simp: list_ex_iff)
    then show ?thesis using False n by (simp add: depset_lists_def depset_add_def)
  qed
qed

lemma fold_depset_add_mono:
  "depset_lists ds n key \<Longrightarrow> depset_lists (fold (\<lambda>d. depset_add d key) xs ds) n key"
  by (induction xs arbitrary: ds) (simp_all add: depset_add_mono)

lemma fold_depset_add_lists:
  "d \<in> set xs \<Longrightarrow> depset_lists (fold (\<lambda>d. depset_add d key) xs ds) (depName d) key"
  by (induction xs arbitrary: ds) (auto simp: depset_add_lists fold_depset_add_mono)

lemma fold_lib_mono:
  "key \<in> set (m l) \<Longrightarrow>
   key \<in> set (fold (\<lambda>l m. m(l := (if key \<in> set (m l) then m l else m l @ [key]))) xs m l)"
  by (induction xs arbitrary: m) simp_all

lemma fold_lib_lists:
  "l \<in> set xs \<Longrightarrow>
   key \<in> set (fold (\<lambda>l m. m(l := (if key \<in> set (m l) then m l else m l @ [key]))) xs m l)"
  by (induction xs arbitrary: m) (auto simp: fold_lib_mono)

lemma reachable_addPackageDependencies: "reachable (addPackageDependencies key p db) key p"
  unfolding reachable_def addPackageDependencies_def
  using fold_depset_add_lists[of "selfDependency p" "selfDependency p # provides p" key "providedDeps db"]
  by (simp add: list_all_iff fold_depset_add_lists fold_lib_lists selfDependency_def)

lemma packages_addPackageDependencies: "packages (addPackageDependencies key p db) = packages db"
  by (simp add: addPackageDependencies_def)

lemma writeBack_match_reachable:
  assumes "origin (info package) = PackageContents" "packages db (name (info package)) = Some existingPackage"
    "fst (addDepsAndProvidesFromOtherPackage existingPackage (info package))"
  shows "\<exists>merged. packages (writeBackPackages [package] db) (name (info package)) = Some merged
           \<and> reachable (writeBackPackages [package] db) (name (info package)) merged"
  using assms by (simp add: Let_def reachable_addPackageDependencies packages_addPackageDependencies)

text \<open>
  Claim C1 does not hold of the source in the case it names last. When
  \<^verbatim>\<open>addDepsAndProvidesFromOtherPackage\<close> reports that the identity no longer matches, the
  loop continues with the next package although \<^verbatim>\<open>removePackageDependencies\<close> has already
  run: \<^verbatim>\<open>addPackageDependencies\<close> is skipped. The package foo (updated to version 2 while the
  binary of version 1 was parsed) was reachable from the indices before the write-back; after
  it, foo is still in \<^verbatim>\<open>packages\<close> but no index lists it.
\<close>

theorem write_back_breaks_reachability:
  "reachable database0 ''foo'' foo2
   \<and> origin (info parsedFoo1) = PackageContents
   \<and> packages database0 (name (info parsedFoo1)) = Some foo2
   \<and> packages (writeBackPackages [parsedFoo1] database0) ''foo'' = Some foo2
   \<and> \<not> reachable (writeBackPackages [parsedFoo1] database0) ''foo'' foo2"
  by (simp add: reachable_def database0_def parsedFoo1_def foo2_def pkg_def emptyDatabase_def
      addPackageDependencies_def removePackageDependencies_def depset_add_def depset_remove_def depset_lists_def
      selfDependency_def sameConstraint_def addDepsAndProvidesFromOtherPackage_def sameIdentity_def Let_def)

subsection \<open>The client's exit code\<close>

lemma client_main_exit_codes: "client_main call = 0 \<or> client_main call = 10"
  by (simp add: client_main_def split: option.splits sum.splits)

text \<open>
  Claim C5 does not hold of the source. \<^verbatim>\<open>handleResponse\<close> sets the return code to 11 when
  the response body cannot be parsed (and to 12 when it cannot be displayed), but
  \<^verbatim>\<open>main\<close> ends with \<^verbatim>\<open>return 0\<close> and never returns that variable: for a response whose
  body is not JSON the handler yields 11 and the process exits with 0.
\<close>

theorem client_main_ignores_return_code:
  "handleResponse (response invocation0) (responseError invocation0) printer0 0 = 11
   \<and> printer invocation0 = Some printer0
   \<and> client_main invocation0 = 0"
  by (simp add: handleResponse_def invocation0_def printer0_def client_main_def)

subsection \<open>Build action meta info: lookups by id and by name\<close>

lemma fold_insert_absent:
  "fold (\<lambda>element m. if m (key element) = None then m(key element := Some element) else m) xs m k
     = (case m k of Some v \<Rightarrow> Some v | None \<Rightarrow> List.find (\<lambda>x. key x = k) xs)"
  by (induction xs arbitrary: m) (auto split: option.splits)

lemma mapByName_find: "mapByName xs key k = List.find (\<lambda>x. key x = k) xs"
  by (simp add: mapByName_def fold_insert_absent)

lemma typeInfoForName_find:
  "typeInfoForName dflt n =
     (case List.find (\<lambda>x. mi_type x = n) (types dflt) of Some ti \<Rightarrow> ti | None \<Rightarrow> typeInfoForId dflt Invalid)"
  by (simp add: typeInfoForName_def m_typeInfoByName_def mapByName_find)

lemma typeInfoForId_id: "mi_id (typeInfoForId dflt t) = t"
  by (cases t) (simp_all add: typeInfoForId_def types_def typeInfo_def)

lemma typeInfoForName_typeInfoForId:
  "typeInfoForName dflt (mi_type (typeInfoForId dflt t)) = typeInfoForId dflt t"
  unfolding typeInfoForName_find
  by (cases t) (simp_all add: typeInfoForId_def types_def typeInfo_def)

lemma typeInfoForName_unlisted:
  "n \<notin> mi_type ` set (types dflt) \<Longrightarrow> typeInfoForName dflt n = typeInfoForId dflt Invalid"
proof -
  assume "n \<notin> mi_type ` set (types dflt)"
  then have "List.find (\<lambda>x. mi_type x = n) (types dflt) = None"
    by (auto simp: find_None_iff)
  then show ?thesis by (simp add: typeInfoForName_find)
qed

text \<open>
  Claim C10. For every BuildActionType \<open>t\<close> of the meta-info table,
  \<^verbatim>\<open>typeInfoForName(typeInfoForId(t).type)\<close> is the record \<^verbatim>\<open>typeInfoForId(t)\<close>, whose id is
  \<open>t\<close>; and for every string that is not the type slug of a table entry,
  \<^verbatim>\<open>typeInfoForName\<close> returns the record of \<open>Invalid\<close>. (The slug of the \<open>Invalid\<close> entry is
  the empty string, which is mapped to that entry as well.)
\<close>

theorem typeInfoForName_inverts_typeInfoForId:
  "typeInfoForName dflt (mi_type (typeInfoForId dflt t)) = typeInfoForId dflt t
   \<and> mi_id (typeInfoForId dflt t) = t
   \<and> (n \<notin> mi_type ` set (types dflt) \<longrightarrow>
        typeInfoForName dflt n = typeInfoForId dflt Invalid \<and> mi_id (typeInfoForId dflt Invalid) = Invalid)"
  using typeInfoForName_typeInfoForId typeInfoForId_id typeInfoForName_unlisted by blast

theorem typeInfoForName_inverts_typeInfoForId_witness:
  "''no-such-type'' \<notin> mi_type ` set (types defaults0)
   \<and> mi_id (typeInfoForName defaults0 ''no-such-type'') = Invalid
   \<and> mi_id (typeInfoForName defaults0 (mi_type (typeInfoForId defaults0 CleanRepository))) = CleanRepository
   \<and> mi_type (typeInfoForId defaults0 CleanRepository) = ''clean-repository''"
proof -
  have a: "''no-such-type'' \<notin> mi_type ` set (types defaults0)"
    by (simp add: types_def typeInfo_def)
  have b: "mi_type (typeInfoForId defaults0 CleanRepository) = ''clean-repository''"
    by (simp add: typeInfoForId_def types_def typeInfo_def)
  from typeInfoForName_inverts_typeInfoForId[of defaults0 CleanRepository "''no-such-type''"] a b
  show ?thesis by simp
qed

end
